theory Spec2Isabelle
  imports Main
begin

section \<open>Python values\<close>

text \<open>
  Row values are Python scalars. A \<open>string\<close> is read as a sequence of code points below
  256, so \<open>length\<close> is Python's \<open>len\<close> on such strings. A float is an IEEE 754
  binary64 value: \<open>Finite neg m x\<close> stands for \<open>m * 2 ^ x\<close>, negated when \<open>neg\<close>
  holds (so that \<open>-0.0\<close> is a value of its own), \<open>Infinity neg\<close> for the two
  infinities.
\<close>

datatype pyfloat = Finite bool nat int | Infinity bool | NaN

datatype pyval = PNone | PBool bool | PInt int | PFloat pyfloat | PStr string

text \<open>
  Exceptions derived from Python's \<open>Exception\<close>, each with the text \<open>str(e)\<close> gives;
  \<open>OtherError\<close> stands for any other class below \<open>Exception\<close>. What is raised outside
  that hierarchy (\<open>KeyboardInterrupt\<close>, \<open>SystemExit\<close>, the \<open>CancelledError\<close> of a
  cancelled task) is not modelled.
\<close>

datatype exn =
    ValueError string | TypeError string | OverflowError string | ZeroDivisionError string
  | OtherError string

fun exn_text :: "exn \<Rightarrow> string" where
  "exn_text (ValueError t) = t"
| "exn_text (TypeError t) = t"
| "exn_text (OverflowError t) = t"
| "exn_text (ZeroDivisionError t) = t"
| "exn_text (OtherError t) = t"

fun str_nat :: "nat \<Rightarrow> string" where
  "str_nat n =
     (if n < 10 then [''0123456789'' ! n]
      else str_nat (n div 10) @ [''0123456789'' ! (n mod 10)])"

definition str_int :: "int \<Rightarrow> string" where
  "str_int i = (if i < 0 then CHR ''-'' # str_nat (nat (- i)) else str_nat (nat i))"

text \<open>
  What the model does not compute of Python is a parameter of it: the text of a float
  (its shortest representation that reads back as the same float), and \<open>str.upper\<close>
  (which leaves the code points below 256 for two letters).
\<close>

record py_builtins =
  float_repr :: "pyfloat \<Rightarrow> string"
  str_upper :: "string \<Rightarrow> string"

text \<open>
  A stand-in for the two, to run the model on inputs that reach neither: values that
  are no floats, and rules that are not \<open>uppercase\<close>.
\<close>

definition plain_builtins :: py_builtins where
  "plain_builtins = \<lparr>float_repr = (\<lambda>f. []), str_upper = (\<lambda>s. s)\<rparr>"

text \<open>\<open>str(value)\<close>\<close>

fun py_str :: "py_builtins \<Rightarrow> pyval \<Rightarrow> string" where
  "py_str py PNone = ''None''"
| "py_str py (PBool b) = (if b then ''True'' else ''False'')"
| "py_str py (PInt i) = str_int i"
| "py_str py (PFloat f) = float_repr py f"
| "py_str py (PStr s) = s"

text \<open>\<open>s.ljust(width)\<close>: pads with spaces on the right, never shortens.\<close>

definition ljust :: "string \<Rightarrow> int \<Rightarrow> string" where
  "ljust s width =
     (if int (length s) \<ge> width then s
      else s @ replicate (nat (width - int (length s))) CHR '' '')"

text \<open>\<open>s[:stop]\<close>: a negative \<open>stop\<close> counts from the end.\<close>

definition slice_to :: "'a list \<Rightarrow> int \<Rightarrow> 'a list" where
  "slice_to s stop =
     (if stop \<ge> 0 then take (nat stop) s else take (nat (int (length s) + stop)) s)"

section \<open>Python floats\<close>

text \<open>
  Rounding of a non-negative rational \<open>num / den\<close> to the nearest binary64 value, ties
  to even: 53 bits of mantissa for normal numbers, the fixed exponent \<open>-1074\<close> for
  subnormal ones, infinity from \<open>2 ^ 1024\<close> on. CPython's true division of integers,
  its \<open>float(int)\<close>, its float multiplication and its \<open>float(str)\<close> are all
  correctly rounded, so each is this rounding of the exact result.
\<close>

fun bitlen :: "nat \<Rightarrow> nat" where
  "bitlen n = (if n = 0 then 0 else Suc (bitlen (n div 2)))"

definition floor_log2 :: "nat \<Rightarrow> nat \<Rightarrow> int" where
  "floor_log2 num den =
     (let e = int (bitlen num) - int (bitlen den)
      in if (if e \<ge> 0 then den * 2 ^ nat e \<le> num else den \<le> num * 2 ^ nat (- e))
         then e else e - 1)"

definition round_half_even :: "nat \<Rightarrow> nat \<Rightarrow> nat" where
  "round_half_even num den =
     (let q = num div den; r = num mod den
      in if 2 * r < den then q
         else if 2 * r > den then q + 1
         else if even q then q else q + 1)"

definition round_double :: "bool \<Rightarrow> nat \<Rightarrow> nat \<Rightarrow> pyfloat" where
  "round_double neg num den =
     (if num = 0 then Finite neg 0 0
      else
        let x = max (floor_log2 num den) (- 1022) - 52;
            m = (if x \<ge> 0 then round_half_even num (den * 2 ^ nat x)
                 else round_half_even (num * 2 ^ nat (- x)) den)
        in if x \<ge> 0 \<and> m * 2 ^ nat x \<ge> 2 ^ 1024 then Infinity neg else Finite neg m x)"

text \<open>\<open>a / b\<close> on Python integers.\<close>

definition py_truediv :: "int \<Rightarrow> int \<Rightarrow> exn + pyfloat" where
  "py_truediv a b =
     (if b = 0 then Inl (ZeroDivisionError ''division by zero'')
      else case round_double ((a < 0) \<noteq> (b < 0)) (nat \<bar>a\<bar>) (nat \<bar>b\<bar>) of
             Infinity _ \<Rightarrow> Inl (OverflowError ''integer division result too large for a float'')
           | f \<Rightarrow> Inr f)"

text \<open>\<open>float(i)\<close> of a Python integer.\<close>

definition float_of_int :: "int \<Rightarrow> exn + pyfloat" where
  "float_of_int i =
     (case round_double (i < 0) (nat \<bar>i\<bar>) 1 of
        Infinity _ \<Rightarrow> Inl (OverflowError ''int too large to convert to float'')
      | f \<Rightarrow> Inr f)"

text \<open>\<open>f * g\<close> on floats.\<close>

fun float_mul :: "pyfloat \<Rightarrow> pyfloat \<Rightarrow> pyfloat" where
  "float_mul NaN g = NaN"
| "float_mul f NaN = NaN"
| "float_mul (Infinity s) (Infinity t) = Infinity (s \<noteq> t)"
| "float_mul (Infinity s) (Finite t m x) = (if m = 0 then NaN else Infinity (s \<noteq> t))"
| "float_mul (Finite s m x) (Infinity t) = (if m = 0 then NaN else Infinity (s \<noteq> t))"
| "float_mul (Finite s m x) (Finite t n y) =
     (if x + y \<ge> 0 then round_double (s \<noteq> t) (m * n * 2 ^ nat (x + y)) 1
      else round_double (s \<noteq> t) (m * n) (2 ^ nat (- (x + y))))"

text \<open>\<open>int(f)\<close> of a float: truncation towards zero.\<close>

fun int_of_float :: "pyfloat \<Rightarrow> exn + int" where
  "int_of_float NaN = Inl (ValueError ''cannot convert float NaN to integer'')"
| "int_of_float (Infinity s) = Inl (OverflowError ''cannot convert float infinity to integer'')"
| "int_of_float (Finite s m x) =
     (let mag = (if x \<ge> 0 then m * 2 ^ nat x else m div 2 ^ nat (- x))
      in Inr (if s then - int mag else int mag))"

section \<open>Python strings\<close>

text \<open>
  \<open>str.lower\<close> on code points below 256: the letters \<open>A\<close> to \<open>Z\<close> and the
  upper-case letters \<open>0xC0\<close> to \<open>0xDE\<close> (the multiplication sign \<open>0xD7\<close> apart)
  move up by 32; nothing else changes.
\<close>

definition lower_char :: "char \<Rightarrow> char" where
  "lower_char c =
     (let n = (of_char c :: nat)
      in if (65 \<le> n \<and> n \<le> 90) \<or> (192 \<le> n \<and> n \<le> 222 \<and> n \<noteq> 215)
         then char_of (n + 32) else c)"

definition lower :: "string \<Rightarrow> string" where
  "lower s = map lower_char s"

text \<open>The white space of \<open>str.strip\<close>, below 256.\<close>

definition is_space :: "char \<Rightarrow> bool" where
  "is_space c = ((of_char c :: nat) \<in> {9, 10, 11, 12, 13, 28, 29, 30, 31, 32, 133, 160})"

definition strip :: "string \<Rightarrow> string" where
  "strip s = rev (dropWhile is_space (rev (dropWhile is_space s)))"

text \<open>\<open>s.replace(c, '')\<close> and \<open>s.replace(c, d)\<close> for single characters.\<close>

definition remove_char :: "char \<Rightarrow> string \<Rightarrow> string" where
  "remove_char c s = filter (\<lambda>d. d \<noteq> c) s"

definition replace_char :: "char \<Rightarrow> char \<Rightarrow> string \<Rightarrow> string" where
  "replace_char c d s = map (\<lambda>e. if e = c then d else e) s"

text \<open>\<open>s.split(c)\<close>: the pieces between the occurrences of \<open>c\<close>, empty ones kept.\<close>

fun split_char :: "char \<Rightarrow> string \<Rightarrow> string list" where
  "split_char c [] = [[]]"
| "split_char c (d # s) =
     (if d = c then [] # split_char c s
      else case split_char c s of p # ps \<Rightarrow> (d # p) # ps | [] \<Rightarrow> [[d]])"



section \<open>Python numbers from strings and values\<close>

text \<open>
  \<open>int(s)\<close> and \<open>float(s)\<close> strip a narrower white space than \<open>str.strip\<close>
  (the separators \<open>0x1C\<close> to \<open>0x1F\<close> are not skipped), and accept the decimal
  digits \<open>0\<close> to \<open>9\<close> only; \<open>str.isdigit\<close> also holds of the superscripts
  \<open>0xB2\<close>, \<open>0xB3\<close> and \<open>0xB9\<close>.
\<close>

definition is_num_space :: "char \<Rightarrow> bool" where
  "is_num_space c = ((of_char c :: nat) \<in> {9, 10, 11, 12, 13, 32, 133, 160})"

definition num_strip :: "string \<Rightarrow> string" where
  "num_strip s = rev (dropWhile is_num_space (rev (dropWhile is_num_space s)))"

definition is_decimal :: "char \<Rightarrow> bool" where
  "is_decimal c = (48 \<le> (of_char c :: nat) \<and> (of_char c :: nat) \<le> 57)"

definition is_digit :: "char \<Rightarrow> bool" where
  "is_digit c = (is_decimal c \<or> (of_char c :: nat) \<in> {178, 179, 185})"

text \<open>\<open>s.isdigit()\<close>\<close>

definition isdigit :: "string \<Rightarrow> bool" where
  "isdigit s = (s \<noteq> [] \<and> list_all is_digit s)"

definition decimal_value :: "string \<Rightarrow> nat" where
  "decimal_value ds = foldl (\<lambda>acc c. acc * 10 + ((of_char c :: nat) - 48)) 0 ds"

definition split_sign :: "string \<Rightarrow> bool \<times> string" where
  "split_sign t =
     (case t of
        [] \<Rightarrow> (False, [])
      | c # r \<Rightarrow> if c = CHR ''+'' then (False, r) else if c = CHR ''-'' then (True, r) else (False, t))"

text \<open>
  Underscores in a numeric literal: each stands right after a digit and right before a
  digit. \<open>prev\<close> is the character before, \<open>CHR 0\<close> at the start.
\<close>

fun underscores_ok :: "char \<Rightarrow> string \<Rightarrow> bool" where
  "underscores_ok prev [] = (prev \<noteq> CHR ''_'')"
| "underscores_ok prev (c # s) =
     (if c = CHR ''_'' then is_decimal prev \<and> underscores_ok c s
      else if prev = CHR ''_'' then is_decimal c \<and> underscores_ok c s
      else underscores_ok c s)"

text \<open>
  The messages of the \<open>ValueError\<close> and \<open>TypeError\<close> of \<open>int\<close> and \<open>float\<close> quote
  the argument; every caller modelled here catches both and never reads the message,
  which is left empty.
\<close>

text \<open>
  \<open>int(s)\<close> for a string, base 10: optional sign, digits with single underscores
  between them, at most 4300 digits (CPython's default limit for the conversion).
\<close>

definition int_of_str :: "string \<Rightarrow> exn + int" where
  "int_of_str s =
     (let (neg, body) = split_sign (num_strip s);
          ds = remove_char CHR ''_'' body
      in if body \<noteq> [] \<and> list_all (\<lambda>c. is_decimal c \<or> c = CHR ''_'') body
            \<and> underscores_ok (CHR 0x00) body \<and> length ds \<le> 4300
         then Inr (if neg then - int (decimal_value ds) else int (decimal_value ds))
         else Inl (ValueError []))"

text \<open>The exponent part of a float literal: nothing, or \<open>e\<close>, an optional sign and digits.\<close>

definition exponent_of :: "string \<Rightarrow> int option" where
  "exponent_of r =
     (case r of
        [] \<Rightarrow> Some 0
      | c # r' \<Rightarrow>
          if c = CHR ''e'' \<or> c = CHR ''E''
          then (let (eneg, ed) = split_sign r'
                in if ed \<noteq> [] \<and> list_all is_decimal ed
                   then Some (if eneg then - int (decimal_value ed) else int (decimal_value ed))
                   else None)
          else None)"

definition decimal_to_double :: "bool \<Rightarrow> nat \<Rightarrow> int \<Rightarrow> pyfloat" where
  "decimal_to_double neg d e10 =
     (if e10 \<ge> 0 then round_double neg (d * 10 ^ nat e10) 1
      else round_double neg d (10 ^ nat (- e10)))"

definition float_body :: "bool \<Rightarrow> string \<Rightarrow> exn + pyfloat" where
  "float_body neg body =
     (if lower body = ''inf'' \<or> lower body = ''infinity'' then Inr (Infinity neg)
      else if lower body = ''nan'' then Inr NaN
      else
        let ip = takeWhile is_decimal body;
            r1 = dropWhile is_decimal body;
            has_point = (r1 \<noteq> [] \<and> hd r1 = CHR ''.'');
            fp = (if has_point then takeWhile is_decimal (tl r1) else []);
            r2 = (if has_point then dropWhile is_decimal (tl r1) else r1)
        in if ip = [] \<and> fp = [] then Inl (ValueError [])
           else case exponent_of r2 of
                  None \<Rightarrow> Inl (ValueError [])
                | Some e \<Rightarrow> Inr (decimal_to_double neg (decimal_value (ip @ fp)) (e - int (length fp))))"

text \<open>\<open>float(s)\<close> for a string.\<close>

definition float_of_str :: "string \<Rightarrow> exn + pyfloat" where
  "float_of_str s =
     (let t = num_strip s
      in if t = [] \<or> \<not> underscores_ok (CHR 0x00) t then Inl (ValueError [])
         else let (neg, body) = split_sign (remove_char CHR ''_'' t) in float_body neg body)"

text \<open>\<open>int(value)\<close> and \<open>float(value)\<close> on the scalars.\<close>

fun py_int :: "pyval \<Rightarrow> exn + int" where
  "py_int PNone = Inl (TypeError [])"
| "py_int (PBool b) = Inr (if b then 1 else 0)"
| "py_int (PInt i) = Inr i"
| "py_int (PFloat f) = int_of_float f"
| "py_int (PStr s) = int_of_str s"

fun py_float :: "pyval \<Rightarrow> exn + pyfloat" where
  "py_float PNone = Inl (TypeError [])"
| "py_float (PBool b) = Inr (if b then Finite False 1 0 else Finite False 0 0)"
| "py_float (PInt i) = float_of_int i"
| "py_float (PFloat f) = Inr f"
| "py_float (PStr s) = float_of_str s"

text \<open>The truth value of a scalar, as \<open>if value\<close> tests it.\<close>

fun truthy :: "pyval \<Rightarrow> bool" where
  "truthy PNone = False"
| "truthy (PBool b) = b"
| "truthy (PInt i) = (i \<noteq> 0)"
| "truthy (PFloat (Finite s m x)) = (m \<noteq> 0)"
| "truthy (PFloat f) = True"
| "truthy (PStr s) = (s \<noteq> [])"

text \<open>\<open>except (ValueError, TypeError)\<close>\<close>

fun is_value_or_type_error :: "exn \<Rightarrow> bool" where
  "is_value_or_type_error (ValueError t) = True"
| "is_value_or_type_error (TypeError t) = True"
| "is_value_or_type_error e = False"

section \<open>Type inference\<close>

text \<open>\<open>BaseParser.infer_data_type\<close> (base.py).\<close>

definition date_like :: "string \<Rightarrow> bool" where
  "date_like value_str =
     ((CHR ''-'' \<in> set value_str \<or> CHR ''/'' \<in> set value_str)
      \<and> (let parts = split_char CHR ''/'' (replace_char CHR ''-'' CHR ''/'' value_str)
         in length parts \<ge> 2 \<and> list_all isdigit parts))"

definition is_bool :: "pyval \<Rightarrow> bool" where
  "is_bool v = (case v of PBool b \<Rightarrow> True | _ \<Rightarrow> False)"

definition infer_tail :: "py_builtins \<Rightarrow> pyval \<Rightarrow> string" where
  "infer_tail py v =
     (if is_bool v \<or> lower (py_str py v) \<in> set [''true'', ''false'', ''yes'', ''no'']
      then ''boolean''
      else if date_like (py_str py v) then ''date''
      else ''string'')"

definition infer_data_type :: "py_builtins \<Rightarrow> pyval \<Rightarrow> exn + string" where
  "infer_data_type py v =
     (if v = PNone \<or> v = PStr [] then Inr ''null''
      else case py_int v of
        Inr i \<Rightarrow> Inr ''integer''
      | Inl e \<Rightarrow>
          if \<not> is_value_or_type_error e then Inl e
          else (case py_float v of
                  Inr f \<Rightarrow> Inr ''float''
                | Inl e' \<Rightarrow>
                    if \<not> is_value_or_type_error e' then Inl e' else Inr (infer_tail py v)))"

section \<open>Transformation engine\<close>

text \<open>engine.py. A custom \<open>transformation_func\<close> is any function that returns or raises.\<close>

record transformation_rule =
  source_column :: string
  target_column :: string
  transformation_type :: string
  transformation_func :: "(pyval \<Rightarrow> (string \<rightharpoonup> pyval) \<Rightarrow> exn + pyval) option"
  parameters :: "string \<rightharpoonup> pyval"

text \<open>The built-in \<open>int\<close> branch: \<open>int(float(value)) if value else None\<close> under
  \<open>except (ValueError, TypeError)\<close>.\<close>

definition apply_int :: "pyval \<Rightarrow> exn + pyval" where
  "apply_int v =
     (if \<not> truthy v then Inr PNone
      else case py_float v of
        Inl e \<Rightarrow> if is_value_or_type_error e then Inr PNone else Inl e
      | Inr f \<Rightarrow> (case int_of_float f of
                    Inl e \<Rightarrow> if is_value_or_type_error e then Inr PNone else Inl e
                  | Inr i \<Rightarrow> Inr (PInt i)))"

definition apply_float :: "pyval \<Rightarrow> exn + pyval" where
  "apply_float v =
     (if \<not> truthy v then Inr PNone
      else case py_float v of
        Inl e \<Rightarrow> if is_value_or_type_error e then Inr PNone else Inl e
      | Inr f \<Rightarrow> Inr (PFloat f))"

text \<open>\<open>TransformationRule.apply\<close>\<close>

definition apply_rule :: "py_builtins \<Rightarrow> transformation_rule \<Rightarrow> pyval \<Rightarrow> exn + pyval" where
  "apply_rule py rule v =
     (if v = PNone
      then Inr (case parameters rule ''default_value'' of None \<Rightarrow> PNone | Some d \<Rightarrow> d)
      else case transformation_func rule of
        Some f \<Rightarrow> f v (parameters rule)
      | None \<Rightarrow>
          let t = transformation_type rule; text = py_str py v
          in if t = ''direct'' then Inr v
             else if t = ''uppercase'' then Inr (if truthy v then PStr (str_upper py text) else PNone)
             else if t = ''lowercase'' then Inr (if truthy v then PStr (lower text) else PNone)
             else if t = ''trim'' then Inr (if truthy v then PStr (strip text) else PNone)
             else if t = ''int'' then apply_int v
             else if t = ''float'' then apply_float v
             else if t = ''boolean''
               then Inr (if is_bool v then v
                         else PBool (lower text \<in> set [''true'', ''yes'', ''1'', ''y'']))
             else if t = ''date'' then Inr (if truthy v then PStr text else PNone)
             else Inr v)"

text \<open>\<open>row.get(column)\<close>\<close>

definition row_get :: "(string \<rightharpoonup> pyval) \<Rightarrow> string \<Rightarrow> pyval" where
  "row_get row column = (case row column of None \<Rightarrow> PNone | Some v \<Rightarrow> v)"

text \<open>The loop of \<open>transform_row\<close> over the rules; an exception of a rule ends it.\<close>

fun transform_rules ::
  "py_builtins \<Rightarrow> transformation_rule list \<Rightarrow> (string \<rightharpoonup> pyval) \<Rightarrow> (string \<rightharpoonup> pyval)
     \<Rightarrow> exn + (string \<rightharpoonup> pyval)" where
  "transform_rules py [] row transformed = Inr transformed"
| "transform_rules py (rule # rules) row transformed =
     (case apply_rule py rule (row_get row (source_column rule)) of
        Inl e \<Rightarrow> Inl e
      | Inr transformed_value \<Rightarrow>
          transform_rules py rules row (transformed(target_column rule \<mapsto> transformed_value)))"

definition transform_row ::
  "py_builtins \<Rightarrow> transformation_rule list \<Rightarrow> (string \<rightharpoonup> pyval) \<Rightarrow> exn + (string \<rightharpoonup> pyval)" where
  "transform_row py rules row = transform_rules py rules row Map.empty"

record validation_error =
  row_index :: nat
  error :: string
  row_data :: "string \<rightharpoonup> pyval"

text \<open>
  The loop of \<open>transform_data\<close>: \<open>idx\<close> is the index of the next row, the state the
  rows transformed so far and the engine's \<open>validation_errors\<close>. Every exception of
  \<open>transform_row\<close> is an \<open>Exception\<close> and is caught.
\<close>

fun transform_loop ::
  "py_builtins \<Rightarrow> transformation_rule list \<Rightarrow> nat \<Rightarrow> (string \<rightharpoonup> pyval) list
     \<Rightarrow> (string \<rightharpoonup> pyval) list \<times> validation_error list
     \<Rightarrow> (string \<rightharpoonup> pyval) list \<times> validation_error list" where
  "transform_loop py rules idx [] st = st"
| "transform_loop py rules idx (row # rest) (transformed_data, validation_errors) =
     (case transform_row py rules row of
        Inr transformed_row \<Rightarrow>
          transform_loop py rules (idx + 1) rest
            (transformed_data @ [transformed_row], validation_errors)
      | Inl e \<Rightarrow>
          transform_loop py rules (idx + 1) rest
            (transformed_data,
             validation_errors @ [\<lparr>row_index = idx, error = exn_text e, row_data = row\<rparr>]))"

text \<open>
  \<open>transform_data\<close>: the result is the list returned and the engine's
  \<open>validation_errors\<close> afterwards, which start as \<open>validation_errors\<close>.
\<close>

definition transform_data ::
  "py_builtins \<Rightarrow> transformation_rule list \<Rightarrow> validation_error list \<Rightarrow> (string \<rightharpoonup> pyval) list
     \<Rightarrow> (string \<rightharpoonup> pyval) list \<times> validation_error list" where
  "transform_data py rules validation_errors rows =
     transform_loop py rules 0 rows ([], validation_errors)"

section \<open>Parser factory\<close>

text \<open>
  factory.py. A file is given by what the factory reads of it: \<open>Path(file_path).suffix\<close>
  and the file's bytes (\<open>None\<close> when it cannot be opened).
\<close>

datatype parser_class = CSVParser | ExcelParser | TXTParser | PipeDelimitedParser | FlatFileParser

record disk_file =
  file_suffix :: string
  file_content :: "string option"

definition PARSER_MAP :: "string \<rightharpoonup> parser_class" where
  "PARSER_MAP = map_of
     [(''csv'', CSVParser), (''xls'', ExcelParser), (''xlsx'', ExcelParser), (''txt'', TXTParser),
      (''tsv'', PipeDelimitedParser), (''dat'', FlatFileParser), (''fixed'', FlatFileParser)]"

text \<open>\<open>path.suffix.lstrip('.').lower()\<close>\<close>

definition extension_of :: "disk_file \<Rightarrow> string" where
  "extension_of f = lower (dropWhile (\<lambda>c. c = CHR ''.'') (file_suffix f))"

text \<open>
  \<open>create_parser\<close> returns an instance of the class found; the model returns the class.
  An absent or empty \<open>file_type\<close> falls back on the file's extension.
\<close>

definition create_parser :: "disk_file \<Rightarrow> string option \<Rightarrow> exn + parser_class" where
  "create_parser f file_type =
     (let extension = (case file_type of
                         Some t \<Rightarrow> if t \<noteq> [] then lower t else extension_of f
                       | None \<Rightarrow> extension_of f)
      in case PARSER_MAP extension of
           None \<Rightarrow> Inl (ValueError (''Unsupported file type: '' @ extension))
         | Some parser_class \<Rightarrow> Inr parser_class)"

text \<open>
  \<open>detect_file_type\<close>. The text sample is the first 1024 bytes decoded as UTF-8 with
  undecodable bytes dropped; a comma, a tab and a bar are ASCII, and an ASCII byte always
  decodes to itself, so their counts in the sample are their counts in those bytes.
  An unreadable file raises inside the \<open>try\<close> and gives \<open>None\<close>.
\<close>

definition detect_file_type :: "disk_file \<Rightarrow> string option" where
  "detect_file_type f =
     (let extension = extension_of f
      in if extension \<in> dom PARSER_MAP then Some extension
         else case file_content f of
           None \<Rightarrow> None
         | Some bytes \<Rightarrow>
             let header = take 8 bytes
             in if take 4 header = [CHR 0xD0, CHR 0xCF, CHR 0x11, CHR 0xE0] then Some ''xls''
                else if take 4 header = [CHR ''P'', CHR ''K'', CHR 0x03, CHR 0x04] then Some ''xlsx''
                else
                  let sample = take 1024 bytes
                  in if CHR '','' \<in> set sample
                        \<and> count_list sample CHR '','' > count_list sample (CHR 0x09)
                     then Some ''csv''
                     else if CHR 0x09 \<in> set sample then Some ''tsv''
                     else if CHR ''|'' \<in> set sample then Some ''pipe''
                     else None)"

section \<open>Rule-based fallback mapping\<close>

text \<open>
  \<open>MappingService._fallback_mapping\<close> (mapping_service.py). A structure is given by its
  \<open>columns\<close> entry, \<open>None\<close> when the key is absent.
\<close>

record mapping =
  input_column :: string
  reference_column :: string
  confidence :: int
  reasoning :: string
  transformation :: string

record fallback_result =
  mappings :: "mapping list"
  unmapped_input_columns :: "string list"
  unmapped_reference_columns :: "string list"
  overall_confidence :: "exn + pyfloat"
  fallback_used :: bool

text \<open>\<open>col.lower().replace('_', '').replace(' ', '')\<close>\<close>

definition normalize_name :: "string \<Rightarrow> string" where
  "normalize_name col = remove_char CHR '' '' (remove_char CHR ''_'' (lower col))"

text \<open>The first loop: exact matches. The state is (mappings, mapped_inputs, mapped_references).\<close>

fun exact_matches ::
  "string list \<Rightarrow> string list \<Rightarrow> mapping list \<times> string set \<times> string set
     \<Rightarrow> mapping list \<times> string set \<times> string set" where
  "exact_matches reference_columns [] st = st"
| "exact_matches reference_columns (input_col # rest) (ms, mapped_inputs, mapped_references) =
     (if input_col \<in> set reference_columns
      then exact_matches reference_columns rest
             (ms @ [\<lparr>input_column = input_col, reference_column = input_col, confidence = 100,
                     reasoning = ''Exact name match'', transformation = ''none''\<rparr>],
              insert input_col mapped_inputs, insert input_col mapped_references)
      else exact_matches reference_columns rest (ms, mapped_inputs, mapped_references))"

text \<open>The inner loop of the second pass: the first free reference column of the same
  normalised name, at which the loop breaks.\<close>

fun first_free_match :: "string \<Rightarrow> string set \<Rightarrow> string list \<Rightarrow> string option" where
  "first_free_match input_lower mapped_references [] = None"
| "first_free_match input_lower mapped_references (ref_col # rest) =
     (if ref_col \<in> mapped_references then first_free_match input_lower mapped_references rest
      else if input_lower = normalize_name ref_col then Some ref_col
      else first_free_match input_lower mapped_references rest)"

fun insensitive_matches ::
  "string list \<Rightarrow> string list \<Rightarrow> mapping list \<times> string set \<times> string set
     \<Rightarrow> mapping list \<times> string set \<times> string set" where
  "insensitive_matches reference_columns [] st = st"
| "insensitive_matches reference_columns (input_col # rest) (ms, mapped_inputs, mapped_references) =
     (if input_col \<in> mapped_inputs
      then insensitive_matches reference_columns rest (ms, mapped_inputs, mapped_references)
      else case first_free_match (normalize_name input_col) mapped_references reference_columns of
             None \<Rightarrow> insensitive_matches reference_columns rest (ms, mapped_inputs, mapped_references)
           | Some ref_col \<Rightarrow>
               insensitive_matches reference_columns rest
                 (ms @ [\<lparr>input_column = input_col, reference_column = ref_col, confidence = 90,
                         reasoning = ''Case-insensitive match'', transformation = ''rename''\<rparr>],
                  insert input_col mapped_inputs, insert ref_col mapped_references))"

text \<open>\<open>len(mappings) / max(len(input_columns), 1) * 100\<close>, in floating point.\<close>

definition confidence_percent :: "nat \<Rightarrow> nat \<Rightarrow> exn + pyfloat" where
  "confidence_percent n_mappings n_inputs =
     (case py_truediv (int n_mappings) (max (int n_inputs) 1) of
        Inl e \<Rightarrow> Inl e
      | Inr ratio \<Rightarrow> (case float_of_int 100 of Inl e \<Rightarrow> Inl e | Inr h \<Rightarrow> Inr (float_mul ratio h)))"

definition fallback_mapping :: "string list option \<Rightarrow> string list option \<Rightarrow> fallback_result" where
  "fallback_mapping input_structure reference_structure =
     (let input_columns = (case input_structure of None \<Rightarrow> [] | Some cs \<Rightarrow> cs);
          reference_columns = (case reference_structure of None \<Rightarrow> [] | Some cs \<Rightarrow> cs);
          (ms, mapped_inputs, mapped_references) =
             insensitive_matches reference_columns input_columns
               (exact_matches reference_columns input_columns ([], {}, {}))
      in \<lparr>mappings = ms,
          unmapped_input_columns = filter (\<lambda>c. c \<notin> mapped_inputs) input_columns,
          unmapped_reference_columns = filter (\<lambda>c. c \<notin> mapped_references) reference_columns,
          overall_confidence = confidence_percent (length ms) (length input_columns),
          fallback_used = True\<rparr>)"

section \<open>Fixed-width output generator\<close>

text \<open>
  \<open>FixedWidthOutputGenerator.generate\<close> (output_generators.py). The model returns the
  strings handed to \<open>f.write\<close>, in order: the header line, then one line per row.
\<close>

definition column_width :: "(string \<rightharpoonup> int) \<Rightarrow> string \<Rightarrow> int" where
  "column_width column_widths header = (case column_widths header of None \<Rightarrow> 20 | Some w \<Rightarrow> w)"

definition fixed_header_line :: "(string \<rightharpoonup> int) \<Rightarrow> string list \<Rightarrow> string" where
  "fixed_header_line column_widths headers =
     foldl (\<lambda>line header. line @ ljust header (column_width column_widths header)) [] headers"

definition data_line ::
  "py_builtins \<Rightarrow> (string \<rightharpoonup> int) \<Rightarrow> string list \<Rightarrow> (string \<rightharpoonup> pyval) \<Rightarrow> string" where
  "data_line py column_widths headers row =
     foldl (\<lambda>line header.
        let width = column_width column_widths header;
            value = py_str py (case row header of None \<Rightarrow> PStr [] | Some v \<Rightarrow> v)
        in line @ slice_to (ljust value width) width) [] headers"

definition generate_fixed ::
  "py_builtins \<Rightarrow> (string \<rightharpoonup> int) \<Rightarrow> string list \<Rightarrow> (string \<rightharpoonup> pyval) list \<Rightarrow> string list" where
  "generate_fixed py column_widths headers rows =
     (fixed_header_line column_widths headers @ [CHR 0x0A])
     # map (\<lambda>row. data_line py column_widths headers row @ [CHR 0x0A]) rows"

section \<open>Flat file parser\<close>











section \<open>Background task manager\<close>

text \<open>
  task_manager.py. The job store is the table \<open>jobs\<close> behind \<open>supabase_admin\<close>, a map
  from job id to row; its calls succeed, and the \<open>updated_at\<close> column (the time of the
  call) is left out. The coroutines are run one after the other: \<open>execute_task\<close> runs
  from its first update to its last without another call in between.
\<close>

definition PENDING :: string where "PENDING = ''pending''"
definition PROCESSING :: string where "PROCESSING = ''processing''"
definition COMPLETED :: string where "COMPLETED = ''completed''"
definition FAILED :: string where "FAILED = ''failed''"
definition CANCELLED :: string where "CANCELLED = ''cancelled''"

record job =
  user_id :: string
  status :: string
  progress :: int
  input_file_id :: "string option"
  reference_file_id :: "string option"
  template_id :: "string option"
  error_message :: "string option"
  result_file_id :: "string option"

text \<open>An \<open>asyncio.Task\<close>: whether it is done, and whether \<open>cancel()\<close> was called on it.\<close>

record task =
  task_done :: bool
  cancel_requested :: bool

record manager =
  jobs :: "string \<rightharpoonup> job"
  active_tasks :: "string \<rightharpoonup> task"

text \<open>
  \<open>create_job\<close>. \<open>new_id\<close> is the id the store gives the inserted row, \<open>None\<close> when
  the insert returns no data.
\<close>

definition create_job ::
  "manager \<Rightarrow> string option \<Rightarrow> string \<Rightarrow> string option \<Rightarrow> string option \<Rightarrow> string option
     \<Rightarrow> (exn + string) \<times> manager" where
  "create_job m new_id uid input_id reference_id tmpl_id =
     (case new_id of
        None \<Rightarrow> (Inl (ValueError ''Failed to create job''), m)
      | Some jid \<Rightarrow>
          (Inr jid,
           m\<lparr>jobs := (jobs m)(jid \<mapsto>
                \<lparr>user_id = uid, status = PENDING, progress = 0, input_file_id = input_id,
                 reference_file_id = reference_id, template_id = tmpl_id,
                 error_message = None, result_file_id = None\<rparr>)\<rparr>))"

text \<open>
  \<open>update_job_status\<close>: the status is always written; the progress when one is given,
  clamped to 0..100; the error message and the result file id only when they are given
  and not empty. A job id with no row updates nothing.
\<close>

definition update_job_status ::
  "manager \<Rightarrow> string \<Rightarrow> string \<Rightarrow> int option \<Rightarrow> string option \<Rightarrow> string option \<Rightarrow> manager" where
  "update_job_status m job_id new_status new_progress message result_id =
     (case jobs m job_id of
        None \<Rightarrow> m
      | Some j \<Rightarrow>
          m\<lparr>jobs := (jobs m)(job_id \<mapsto>
               j\<lparr>status := new_status,
                 progress := (case new_progress of None \<Rightarrow> progress j
                              | Some p \<Rightarrow> min 100 (max 0 p)),
                 error_message := (case message of None \<Rightarrow> error_message j
                                   | Some t \<Rightarrow> if t \<noteq> [] then Some t else error_message j),
                 result_file_id := (case result_id of None \<Rightarrow> result_file_id j
                                    | Some r \<Rightarrow> if r \<noteq> [] then Some r else result_file_id j)\<rparr>)\<rparr>)"

text \<open>
  A job body \<open>task_func\<close>, as the manager sees it: the calls of \<open>update_job_status\<close> it
  makes on its job (status, progress, error message, result file id), then what it
  returns or raises. A result is a dict, given by its \<open>result_file_id\<close> entry, or
  something else.
\<close>

datatype task_result = ResultDict "string option" | ResultOther

record body =
  reports :: "(string \<times> int option \<times> string option \<times> string option) list"
  outcome :: "exn + task_result"

definition run_reports ::
  "manager \<Rightarrow> string \<Rightarrow> (string \<times> int option \<times> string option \<times> string option) list \<Rightarrow> manager" where
  "run_reports m job_id rs = foldl (\<lambda>m' (st, p, msg, res). update_job_status m' job_id st p msg res) m rs"

text \<open>\<open>execute_task\<close>: what it returns or re-raises, and the manager afterwards.\<close>

definition execute_task :: "manager \<Rightarrow> string \<Rightarrow> body \<Rightarrow> (exn + task_result) \<times> manager" where
  "execute_task m job_id task_func =
     (let m1 = update_job_status m job_id PROCESSING (Some 0) None None;
          m2 = run_reports m1 job_id (reports task_func)
      in case outcome task_func of
           Inr result \<Rightarrow>
             (Inr result,
              update_job_status m2 job_id COMPLETED (Some 100) None
                (case result of ResultDict r \<Rightarrow> r | ResultOther \<Rightarrow> None))
         | Inl e \<Rightarrow>
             (Inl e, update_job_status m2 job_id FAILED None (Some (exn_text e)) None))"

text \<open>
  \<open>start_background_task\<close> registers a task that is not done; its done-callback
  (\<open>task_finished\<close>) takes it out of the registry again.
\<close>

definition start_background_task :: "manager \<Rightarrow> string \<Rightarrow> manager" where
  "start_background_task m job_id =
     m\<lparr>active_tasks := (active_tasks m)(job_id \<mapsto> \<lparr>task_done = False, cancel_requested = False\<rparr>)\<rparr>"

definition task_finished :: "manager \<Rightarrow> string \<Rightarrow> manager" where
  "task_finished m job_id = m\<lparr>active_tasks := (active_tasks m)(job_id := None)\<rparr>"

text \<open>\<open>cancel_job\<close>: the boolean it returns, and the manager afterwards.\<close>

definition cancel_job :: "manager \<Rightarrow> string \<Rightarrow> bool \<times> manager" where
  "cancel_job m job_id =
     (case active_tasks m job_id of
        None \<Rightarrow> (False, m)
      | Some t \<Rightarrow>
          if \<not> task_done t
          then (True,
                update_job_status
                  (m\<lparr>active_tasks := (active_tasks m)(job_id \<mapsto> t\<lparr>cancel_requested := True\<rparr>)\<rparr>)
                  job_id CANCELLED None None None)
          else (False, m))"

section \<open>Batch jobs\<close>

text \<open>
  \<open>JobProcessor.process_batch_files\<close> (job_processor.py).
  \<open>int(((idx + 1) / total_files) * 100)\<close> is computed in floating point: a true
  division, a multiplication by \<open>100.0\<close>, a truncation.
\<close>

definition batch_progress :: "nat \<Rightarrow> nat \<Rightarrow> exn + int" where
  "batch_progress idx total_files =
     (case py_truediv (int idx + 1) (int total_files) of
        Inl e \<Rightarrow> Inl e
      | Inr ratio \<Rightarrow>
          (case float_of_int 100 of
             Inl e \<Rightarrow> Inl e
           | Inr hundred \<Rightarrow> int_of_float (float_mul ratio hundred)))"

text \<open>
  The loop. \<open>analyze\<close> stands for \<open>ParsingService.analyze_structure(file_id, user_id)\<close>.
  The state is the manager, \<open>processed_files\<close> and \<open>failed_files\<close>. An exception outside
  the inner \<open>try\<close> ends the loop and reaches the outer handler, with the manager as the
  loop left it.
\<close>

fun batch_loop ::
  "(string \<Rightarrow> exn + 'r) \<Rightarrow> string \<Rightarrow> string \<Rightarrow> nat \<Rightarrow> nat \<Rightarrow> string list
     \<Rightarrow> manager \<times> (string \<times> 'r) list \<times> (string \<times> string) list
     \<Rightarrow> exn \<times> manager + manager \<times> (string \<times> 'r) list \<times> (string \<times> string) list" where
  "batch_loop analyze job_id operation total_files idx [] st = Inr st"
| "batch_loop analyze job_id operation total_files idx (file_id # rest) (m, processed_files, failed_files) =
     (case batch_progress idx total_files of
        Inl e \<Rightarrow> Inl (e, m)
      | Inr p \<Rightarrow>
          let m' = update_job_status m job_id PROCESSING (Some p) None None
          in if operation = ''analyze''
             then (case analyze file_id of
                     Inr result \<Rightarrow>
                       batch_loop analyze job_id operation total_files (idx + 1) rest
                         (m', processed_files @ [(file_id, result)], failed_files)
                   | Inl e \<Rightarrow>
                       batch_loop analyze job_id operation total_files (idx + 1) rest
                         (m', processed_files, failed_files @ [(file_id, exn_text e)]))
             else batch_loop analyze job_id operation total_files (idx + 1) rest
                    (m', processed_files, failed_files @ [(file_id, ''Unknown operation'')]))"

record 'r batch_result =
  total :: nat
  processed :: nat
  failed :: nat
  results :: "(string \<times> 'r) list"
  errors :: "(string \<times> string) list"

definition process_batch_files ::
  "(string \<Rightarrow> exn + 'r) \<Rightarrow> manager \<Rightarrow> string \<Rightarrow> string list \<Rightarrow> string
     \<Rightarrow> (exn + 'r batch_result) \<times> manager" where
  "process_batch_files analyze m job_id file_ids operation =
     (case batch_loop analyze job_id operation (length file_ids) 0 file_ids (m, [], []) of
        Inl (e, m') \<Rightarrow> (Inl (OtherError (''Batch processing failed: '' @ exn_text e)), m')
      | Inr (m', processed_files, failed_files) \<Rightarrow>
          (Inr \<lparr>total = length file_ids, processed = length processed_files,
                 failed = length failed_files, results = processed_files,
                 errors = failed_files\<rparr>, m'))"

section \<open>Fixed-width output: line lengths\<close>

lemma length_ljust_slice:
  "0 \<le> w \<Longrightarrow> int (length (slice_to (ljust s w) w)) = w"
  by (auto simp: ljust_def slice_to_def)

lemma length_data_line_foldl:
  assumes "\<forall>h\<in>set hs. 0 \<le> column_width cw h"
  shows "int (length (foldl (\<lambda>line header.
        let width = column_width cw header;
            value = py_str py (case row header of None \<Rightarrow> PStr [] | Some v \<Rightarrow> v)
        in line @ slice_to (ljust value width) width) acc hs))
      = int (length acc) + (\<Sum>h\<leftarrow>hs. column_width cw h)"
  using assms
proof (induction hs arbitrary: acc)
  case Nil
  then show ?case by simp
next
  case (Cons h hs)
  then show ?case by (simp add: Let_def length_ljust_slice)
qed

text \<open>
  C10 (as amended). With every configured width non-negative, each data line written
  has length exactly the sum over the headers of the column's width (20 when the map has
  no entry), whatever the values' lengths; and the lines written after the header line
  are these data lines, one per row, each followed by a newline.
\<close>

theorem fixed_width_line_length:
  assumes "\<forall>h\<in>set headers. 0 \<le> column_width column_widths h"
  shows "(\<forall>row\<in>set rows.
      int (length (data_line py column_widths headers row))
        = (\<Sum>h\<leftarrow>headers. column_width column_widths h))
    \<and> tl (generate_fixed py column_widths headers rows)
        = map (\<lambda>row. data_line py column_widths headers row @ [CHR 0x0A]) rows"
  using length_data_line_foldl [OF assms, of py _ "[]"]
  by (simp add: data_line_def generate_fixed_def)

theorem fixed_width_line_length_witness:
  "int (length (data_line plain_builtins
      (Map.empty(''id'' \<mapsto> 4, ''n'' \<mapsto> 2)) [''id'', ''n'', ''z'']
      (Map.empty(''id'' \<mapsto> PInt 120, ''n'' \<mapsto> PStr ''abc'')))) = 26"
  using fixed_width_line_length [of "[''id'', ''n'', ''z'']"
      "Map.empty(''id'' \<mapsto> 4, ''n'' \<mapsto> 2)"
      "[Map.empty(''id'' \<mapsto> PInt 120, ''n'' \<mapsto> PStr ''abc'')]" plain_builtins]
  by (simp add: column_width_def)

text \<open>
  C10 as stated fails for a negative width: with width \<open>-1\<close> the value \<open>abc\<close> is
  not padded and the slice drops its last character, so the line has length 2 while
  the widths sum to \<open>-1\<close>.
\<close>

theorem fixed_width_negative_width_counterexample:
  "data_line plain_builtins (Map.empty(''id'' \<mapsto> - 1)) [''id'']
      (Map.empty(''id'' \<mapsto> PStr ''abc'')) = ''ab''
   \<and> (\<Sum>h\<leftarrow>[''id'']. column_width (Map.empty(''id'' \<mapsto> - 1)) h) = - 1"
  by (simp add: data_line_def column_width_def ljust_def slice_to_def)

section \<open>Parser factory: a detected type without a parser\<close>

text \<open>
  C9. Content-based detection can answer \<open>pipe\<close>: a file without a registered extension
  whose text has a bar and neither a comma nor a tab. \<open>pipe\<close> is not a key of
  \<open>PARSER_MAP\<close>, and \<open>create_parser\<close> called with that type raises the
  unsupported-file-type error, for every file.
\<close>

theorem detected_pipe_unsupported:
  "detect_file_type \<lparr>file_suffix = [], file_content = Some ''a|b''\<rparr> = Some ''pipe''
   \<and> ''pipe'' \<notin> dom PARSER_MAP
   \<and> (\<forall>f. create_parser f (Some ''pipe'') = Inl (ValueError ''Unsupported file type: pipe''))"
  by (simp add: detect_file_type_def extension_of_def create_parser_def lower_def lower_char_def
      PARSER_MAP_def dom_map_of_conv_image_fst)

section \<open>Fallback mapping: the example\<close>

text \<open>
  C7. On input columns \<open>Customer_Name, Email\<close> and reference columns
  \<open>customer_name, Email_Address\<close> the rule-based fallback gives exactly one mapping,
  \<open>Customer_Name\<close> to \<open>customer_name\<close> with confidence 90, leaves \<open>Email\<close>
  in the unmapped input columns and \<open>Email_Address\<close> in the unmapped reference columns.
\<close>

theorem fallback_mapping_example:
  "fallback_mapping (Some [''Customer_Name'', ''Email''])
      (Some [''customer_name'', ''Email_Address''])
   = \<lparr>mappings = [\<lparr>input_column = ''Customer_Name'', reference_column = ''customer_name'',
                    confidence = 90, reasoning = ''Case-insensitive match'',
                    transformation = ''rename''\<rparr>],
       unmapped_input_columns = [''Email''],
       unmapped_reference_columns = [''Email_Address''],
       overall_confidence = Inr (Finite False (50 * 2 ^ 47) (- 47)),
       fallback_used = True\<rparr>"
  by (simp add: fallback_mapping_def normalize_name_def lower_def lower_char_def remove_char_def
      confidence_percent_def py_truediv_def float_of_int_def round_double_def floor_log2_def
      round_half_even_def Let_def char_of_eq_iff)

section \<open>Flat file parser: when the layout is not detected\<close>






section \<open>Transformation engine: the record of one row\<close>





lemma float_of_str_inf: "float_of_str ''inf'' = Inr (Infinity False)"
  by (simp add: float_of_str_def float_body_def num_strip_def is_num_space_def is_decimal_def
      split_sign_def remove_char_def lower_def lower_char_def)

lemma apply_int_inf:
  "apply_int (PStr ''inf'') = Inl (OverflowError ''cannot convert float infinity to integer'')"
  by (simp add: apply_int_def float_of_str_inf)




section \<open>Transformation engine: row isolation\<close>

lemma transform_loop_eq:
  "transform_loop py rules idx rows (td, ve) =
     (td @ [m. row \<leftarrow> rows, Inr m \<leftarrow> [transform_row py rules row]],
      ve @ [\<lparr>row_index = i, error = exn_text e, row_data = row\<rparr>.
              (i, row) \<leftarrow> List.enumerate idx rows, Inl e \<leftarrow> [transform_row py rules row]])"
  by (induction rows arbitrary: idx td ve) (auto split: sum.splits)

lemma all_succeed:
  assumes "\<forall>row\<in>set rows. \<exists>m. f row = Inr m"
  shows "length [m. row \<leftarrow> rows, Inr m \<leftarrow> [f row]] = length rows
    \<and> [g i e row. (i, row) \<leftarrow> List.enumerate n rows, Inl e \<leftarrow> [f row]] = []"
  using assms by (induction rows arbitrary: n) (auto split: sum.splits)

lemma one_failure:
  assumes k: "k < length rows"
    and only: "\<forall>i<length rows. (\<exists>e. f (rows ! i) = Inl e) \<longleftrightarrow> i = k"
    and e: "f (rows ! k) = Inl e"
  shows "length [m. row \<leftarrow> rows, Inr m \<leftarrow> [f row]] = length rows - 1
    \<and> [g i e row. (i, row) \<leftarrow> List.enumerate 0 rows, Inl e \<leftarrow> [f row]] = [g k e (rows ! k)]"
proof -
  let ?a = "take k rows" and ?b = "drop (Suc k) rows"
  have split: "rows = ?a @ rows ! k # ?b"
    using k by (simp add: id_take_nth_drop)
  have a: "\<forall>row\<in>set ?a. \<exists>m. f row = Inr m"
  proof
    fix row assume "row \<in> set ?a"
    then obtain i where "i < k" "row = rows ! i"
      using k by (auto simp: in_set_conv_nth)
    with only k have "\<not> (\<exists>e. f row = Inl e)" by auto
    then show "\<exists>m. f row = Inr m" by (cases "f row") auto
  qed
  have b: "\<forall>row\<in>set ?b. \<exists>m. f row = Inr m"
  proof
    fix row assume "row \<in> set ?b"
    then obtain i where "i < length rows - Suc k" "row = rows ! (Suc k + i)"
      by (auto simp: in_set_conv_nth)
    with only have "\<not> (\<exists>e. f row = Inl e)" by auto
    then show "\<exists>m. f row = Inr m" by (cases "f row") auto
  qed
  have len: "length [m. row \<leftarrow> rows, Inr m \<leftarrow> [f row]]
      = length [m. row \<leftarrow> ?a, Inr m \<leftarrow> [f row]] + length [m. row \<leftarrow> ?b, Inr m \<leftarrow> [f row]]"
    by (subst split) (simp add: e)
  have fl: "[g i e row. (i, row) \<leftarrow> List.enumerate 0 rows, Inl e \<leftarrow> [f row]]
      = [g i e row. (i, row) \<leftarrow> List.enumerate 0 ?a, Inl e \<leftarrow> [f row]]
        @ g k e (rows ! k)
        # [g i e row. (i, row) \<leftarrow> List.enumerate (Suc k) ?b, Inl e \<leftarrow> [f row]]"
    using k by (subst split) (simp add: enumerate_append_eq e min_def)
  note A = all_succeed [OF a, of g 0] and B = all_succeed [OF b, of g "Suc k"]
  have "length [m. row \<leftarrow> rows, Inr m \<leftarrow> [f row]] = length rows - 1"
    using k by (simp only: len A [THEN conjunct1] B [THEN conjunct1]) simp
  moreover have "[g i e row. (i, row) \<leftarrow> List.enumerate 0 rows, Inl e \<leftarrow> [f row]]
      = [g k e (rows ! k)]"
    by (simp only: fl A [THEN conjunct2] B [THEN conjunct2] append_Nil)
  ultimately show ?thesis by (rule conjI)
qed

text \<open>
  C1. \<open>transform_data\<close> returns for every list of rows and every rule set (no exception
  of a row escapes it): the rows whose transformation returns, transformed and in input
  order; and it appends to the engine's validation errors exactly one entry per row
  whose transformation raises (the row's index, the error's text, the row itself), in
  input order. In particular, for 10 rows of which only the row of index 4 raises, on a
  fresh engine it returns 9 rows and records the single error of row index 4.
\<close>

theorem transform_data_row_isolation:
  "transform_data py rules validation_errors rows =
     ([m. row \<leftarrow> rows, Inr m \<leftarrow> [transform_row py rules row]],
      validation_errors @
        [\<lparr>row_index = i, error = exn_text e, row_data = row\<rparr>.
           (i, row) \<leftarrow> List.enumerate 0 rows, Inl e \<leftarrow> [transform_row py rules row]])
   \<and> (length rows = 10
        \<and> (\<forall>i<10. (\<exists>e. transform_row py rules (rows ! i) = Inl e) \<longleftrightarrow> i = 4) \<longrightarrow>
        length (fst (transform_data py rules [] rows)) = 9
        \<and> (\<exists>e. transform_row py rules (rows ! 4) = Inl e
              \<and> snd (transform_data py rules [] rows)
                  = [\<lparr>row_index = 4, error = exn_text e, row_data = rows ! 4\<rparr>]))"
proof (rule conjI)
  show "transform_data py rules validation_errors rows =
     ([m. row \<leftarrow> rows, Inr m \<leftarrow> [transform_row py rules row]],
      validation_errors @
        [\<lparr>row_index = i, error = exn_text e, row_data = row\<rparr>.
           (i, row) \<leftarrow> List.enumerate 0 rows, Inl e \<leftarrow> [transform_row py rules row]])"
    unfolding transform_data_def by (simp only: transform_loop_eq append_Nil)
next
  show "length rows = 10
        \<and> (\<forall>i<10. (\<exists>e. transform_row py rules (rows ! i) = Inl e) \<longleftrightarrow> i = 4) \<longrightarrow>
        length (fst (transform_data py rules [] rows)) = 9
        \<and> (\<exists>e. transform_row py rules (rows ! 4) = Inl e
              \<and> snd (transform_data py rules [] rows)
                  = [\<lparr>row_index = 4, error = exn_text e, row_data = rows ! 4\<rparr>])"
  proof (rule impI)
  assume h: "length rows = 10
        \<and> (\<forall>i<10. (\<exists>e. transform_row py rules (rows ! i) = Inl e) \<longleftrightarrow> i = 4)"
  then have "\<exists>e. transform_row py rules (rows ! 4) = Inl e"
    by (elim conjE allE [of _ 4]) simp
  then obtain e where e: "transform_row py rules (rows ! 4) = Inl e" ..
  from h have k: "4 < length rows"
    and only: "\<forall>i<length rows. (\<exists>e. transform_row py rules (rows ! i) = Inl e) \<longleftrightarrow> i = 4"
    by simp_all
  note F = one_failure [where f = "transform_row py rules"
      and g = "\<lambda>i e row. \<lparr>row_index = i, error = exn_text e, row_data = row\<rparr>",
      OF k only e]
  have "length (fst (transform_data py rules [] rows)) = 9"
    unfolding transform_data_def transform_loop_eq using F [THEN conjunct1] h by simp
  moreover have "snd (transform_data py rules [] rows)
      = [\<lparr>row_index = 4, error = exn_text e, row_data = rows ! 4\<rparr>]"
    unfolding transform_data_def transform_loop_eq using F [THEN conjunct2] by simp
  ultimately show "length (fst (transform_data py rules [] rows)) = 9
        \<and> (\<exists>e. transform_row py rules (rows ! 4) = Inl e
              \<and> snd (transform_data py rules [] rows)
                  = [\<lparr>row_index = 4, error = exn_text e, row_data = rows ! 4\<rparr>])"
    using e by blast
  qed
qed

theorem transform_data_row_isolation_witness:
  "length (fst (transform_data plain_builtins
       [\<lparr>source_column = ''id'', target_column = ''id'', transformation_type = ''direct'',
         transformation_func = None, parameters = Map.empty\<rparr>,
        \<lparr>source_column = ''amount'', target_column = ''total'', transformation_type = ''int'',
         transformation_func = None, parameters = Map.empty\<rparr>] []
       [Map.empty(''id'' \<mapsto> PInt 0), Map.empty(''id'' \<mapsto> PInt 1),
        Map.empty(''id'' \<mapsto> PInt 2), Map.empty(''id'' \<mapsto> PInt 3),
        Map.empty(''id'' \<mapsto> PInt 4, ''amount'' \<mapsto> PStr ''inf''),
        Map.empty(''id'' \<mapsto> PInt 5), Map.empty(''id'' \<mapsto> PInt 6),
        Map.empty(''id'' \<mapsto> PInt 7), Map.empty(''id'' \<mapsto> PInt 8),
        Map.empty(''id'' \<mapsto> PInt 9)])) = 9
   \<and> snd (transform_data plain_builtins
       [\<lparr>source_column = ''id'', target_column = ''id'', transformation_type = ''direct'',
         transformation_func = None, parameters = Map.empty\<rparr>,
        \<lparr>source_column = ''amount'', target_column = ''total'', transformation_type = ''int'',
         transformation_func = None, parameters = Map.empty\<rparr>] []
       [Map.empty(''id'' \<mapsto> PInt 0), Map.empty(''id'' \<mapsto> PInt 1),
        Map.empty(''id'' \<mapsto> PInt 2), Map.empty(''id'' \<mapsto> PInt 3),
        Map.empty(''id'' \<mapsto> PInt 4, ''amount'' \<mapsto> PStr ''inf''),
        Map.empty(''id'' \<mapsto> PInt 5), Map.empty(''id'' \<mapsto> PInt 6),
        Map.empty(''id'' \<mapsto> PInt 7), Map.empty(''id'' \<mapsto> PInt 8),
        Map.empty(''id'' \<mapsto> PInt 9)])
     = [\<lparr>row_index = 4, error = ''cannot convert float infinity to integer'',
         row_data = Map.empty(''id'' \<mapsto> PInt 4, ''amount'' \<mapsto> PStr ''inf'')\<rparr>]"
proof -
  let ?rules = "[\<lparr>source_column = ''id'', target_column = ''id'', transformation_type = ''direct'',
         transformation_func = None, parameters = Map.empty\<rparr>,
        \<lparr>source_column = ''amount'', target_column = ''total'', transformation_type = ''int'',
         transformation_func = None, parameters = Map.empty\<rparr>]"
  let ?rows = "[Map.empty(''id'' \<mapsto> PInt 0), Map.empty(''id'' \<mapsto> PInt 1),
        Map.empty(''id'' \<mapsto> PInt 2), Map.empty(''id'' \<mapsto> PInt 3),
        Map.empty(''id'' \<mapsto> PInt 4, ''amount'' \<mapsto> PStr ''inf''),
        Map.empty(''id'' \<mapsto> PInt 5), Map.empty(''id'' \<mapsto> PInt 6),
        Map.empty(''id'' \<mapsto> PInt 7), Map.empty(''id'' \<mapsto> PInt 8),
        Map.empty(''id'' \<mapsto> PInt 9)]"
  have ok: "transform_row plain_builtins ?rules (Map.empty(''id'' \<mapsto> PInt n))
      = Inr (Map.empty(''id'' \<mapsto> PInt n, ''total'' \<mapsto> PNone))" for n
    by (simp add: transform_row_def apply_rule_def row_get_def)
  have bad: "transform_row plain_builtins ?rules
        (Map.empty(''id'' \<mapsto> PInt 4, ''amount'' \<mapsto> PStr ''inf''))
      = Inl (OverflowError ''cannot convert float infinity to integer'')"
    by (simp add: transform_row_def apply_rule_def row_get_def apply_int_inf)
  have "\<forall>i<10. (\<exists>e. transform_row plain_builtins ?rules (?rows ! i) = Inl e) \<longleftrightarrow> i = 4"
    by (simp add: numeral_eq_Suc All_less_Suc ok bad)
  then have h: "length ?rows = 10
      \<and> (\<forall>i<10. (\<exists>e. transform_row plain_builtins ?rules (?rows ! i) = Inl e) \<longleftrightarrow> i = 4)"
    by simp
  from transform_data_row_isolation [of plain_builtins ?rules "[]" ?rows, THEN conjunct2,
      rule_format, OF h]
  show ?thesis by (simp add: bad)
qed

section \<open>Task manager: the outcome of a job body\<close>

lemma update_job_status_jobs:
  "jobs m jid = Some j \<Longrightarrow>
   jobs (update_job_status m jid st p msg res) jid =
     Some (j\<lparr>status := st,
             progress := (case p of None \<Rightarrow> progress j | Some q \<Rightarrow> min 100 (max 0 q)),
             error_message := (case msg of None \<Rightarrow> error_message j
                               | Some t \<Rightarrow> if t \<noteq> [] then Some t else error_message j),
             result_file_id := (case res of None \<Rightarrow> result_file_id j
                                | Some r \<Rightarrow> if r \<noteq> [] then Some r else result_file_id j)\<rparr>)"
  by (simp add: update_job_status_def)

lemma update_job_status_tasks [simp]:
  "active_tasks (update_job_status m jid st p msg res) = active_tasks m"
  by (simp add: update_job_status_def split: option.splits)

lemma run_reports_tasks [simp]: "active_tasks (run_reports m jid rs) = active_tasks m"
  unfolding run_reports_def by (induction rs arbitrary: m) (auto split: prod.splits)

text \<open>The progress a job has after the reports of a body: the last one given, clamped.\<close>

lemma run_reports_job:
  "jobs m jid = Some j \<Longrightarrow>
   \<exists>j'. jobs (run_reports m jid rs) jid = Some j'
      \<and> progress j' = foldl (\<lambda>p (st, np, msg, res).
            case np of None \<Rightarrow> p | Some q \<Rightarrow> min 100 (max 0 q)) (progress j) rs"
  unfolding run_reports_def
proof (induction rs arbitrary: m j)
  case Nil
  then show ?case by simp
next
  case (Cons r rs)
  obtain st np msg res where r: "r = (st, np, msg, res)" by (cases r) auto
  from update_job_status_jobs [OF Cons.prems, of st np msg res]
  obtain j1 where j1: "jobs (update_job_status m jid st np msg res) jid = Some j1"
    and p1: "progress j1 = (case np of None \<Rightarrow> progress j | Some q \<Rightarrow> min 100 (max 0 q))"
    by simp
  from Cons.IH [OF j1] p1 r show ?case by simp
qed

lemma execute_task_returns:
  assumes "jobs m jid = Some j" and "outcome task_func = Inr result"
  shows "fst (execute_task m jid task_func) = Inr result
    \<and> (\<exists>j'. jobs (snd (execute_task m jid task_func)) jid = Some j'
          \<and> status j' = COMPLETED \<and> progress j' = 100)"
proof -
  from update_job_status_jobs [OF assms(1), of PROCESSING "Some 0" None None]
  obtain j1 where "jobs (update_job_status m jid PROCESSING (Some 0) None None) jid = Some j1"
    by simp
  from run_reports_job [OF this, of "reports task_func"]
  obtain j2 where
    "jobs (run_reports (update_job_status m jid PROCESSING (Some 0) None None) jid
        (reports task_func)) jid = Some j2" by blast
  from update_job_status_jobs [OF this] assms(2) show ?thesis
    by (simp add: execute_task_def Let_def)
qed

lemma execute_task_raises:
  assumes "jobs m jid = Some j" and "outcome task_func = Inl e"
  shows "fst (execute_task m jid task_func) = Inl e
    \<and> (\<exists>j2 j'. jobs (run_reports (update_job_status m jid PROCESSING (Some 0) None None) jid
                      (reports task_func)) jid = Some j2
          \<and> jobs (snd (execute_task m jid task_func)) jid = Some j'
          \<and> status j' = FAILED
          \<and> progress j' = progress j2
          \<and> progress j' = foldl (\<lambda>p (st, np, msg, res).
                case np of None \<Rightarrow> p | Some q \<Rightarrow> min 100 (max 0 q)) 0 (reports task_func)
          \<and> error_message j' = (if exn_text e \<noteq> [] then Some (exn_text e) else error_message j2))"
proof -
  from update_job_status_jobs [OF assms(1), of PROCESSING "Some 0" None None]
  obtain j1 where j1: "jobs (update_job_status m jid PROCESSING (Some 0) None None) jid = Some j1"
    and p1: "progress j1 = 0"
    by simp
  from run_reports_job [OF j1, of "reports task_func"] p1
  obtain j2 where j2:
    "jobs (run_reports (update_job_status m jid PROCESSING (Some 0) None None) jid
        (reports task_func)) jid = Some j2"
    and p2: "progress j2 = foldl (\<lambda>p (st, np, msg, res).
                case np of None \<Rightarrow> p | Some q \<Rightarrow> min 100 (max 0 q)) 0 (reports task_func)"
    by auto
  from update_job_status_jobs [OF j2, of FAILED None "Some (exn_text e)" None] assms(2) j2 p2
  show ?thesis
    by (simp add: execute_task_def Let_def)
qed

text \<open>
  C4 (as amended). For a job in the store and every body run through \<open>execute_task\<close>:
  when the body returns, \<open>execute_task\<close> returns its result and the job is
  \<open>completed\<close> with progress 100; when the body raises, the one handler of
  \<open>execute_task\<close> sets the job to \<open>failed\<close>, leaves the progress at the last value
  reported (clamped to 0..100; 0 when the body reported none), and re-raises the
  error. The error's text is recorded as the error message when it is not empty; an
  empty text leaves the stored error message as it was.
\<close>

theorem execute_task_outcome:
  assumes "jobs m jid = Some j"
  shows "(\<forall>result. outcome task_func = Inr result \<longrightarrow>
            fst (execute_task m jid task_func) = Inr result
            \<and> (\<exists>j'. jobs (snd (execute_task m jid task_func)) jid = Some j'
                  \<and> status j' = COMPLETED \<and> progress j' = 100))
       \<and> (\<forall>e. outcome task_func = Inl e \<longrightarrow>
            fst (execute_task m jid task_func) = Inl e
            \<and> (\<exists>j2 j'. jobs (run_reports (update_job_status m jid PROCESSING (Some 0) None None)
                              jid (reports task_func)) jid = Some j2
                  \<and> jobs (snd (execute_task m jid task_func)) jid = Some j'
                  \<and> status j' = FAILED
                  \<and> progress j' = progress j2
                  \<and> progress j' = foldl (\<lambda>p (st, np, msg, res).
                        case np of None \<Rightarrow> p | Some q \<Rightarrow> min 100 (max 0 q)) 0 (reports task_func)
                  \<and> error_message j' =
                      (if exn_text e \<noteq> [] then Some (exn_text e) else error_message j2)))"
  using execute_task_returns [OF assms] execute_task_raises [OF assms] by blast

theorem execute_task_outcome_witness:
  "fst (execute_task
      \<lparr>jobs = Map.empty(''j1'' \<mapsto>
          \<lparr>user_id = ''u1'', status = ''pending'', progress = 0, input_file_id = None,
           reference_file_id = None, template_id = None, error_message = None,
           result_file_id = None\<rparr>),
       active_tasks = Map.empty\<rparr> ''j1''
      \<lparr>reports = [(''processing'', Some 30, None, None)],
       outcome = Inl (OtherError ''File analysis failed: boom'')\<rparr>)
     = Inl (OtherError ''File analysis failed: boom'')
   \<and> (\<exists>j'. jobs (snd (execute_task
      \<lparr>jobs = Map.empty(''j1'' \<mapsto>
          \<lparr>user_id = ''u1'', status = ''pending'', progress = 0, input_file_id = None,
           reference_file_id = None, template_id = None, error_message = None,
           result_file_id = None\<rparr>),
       active_tasks = Map.empty\<rparr> ''j1''
      \<lparr>reports = [(''processing'', Some 30, None, None)],
       outcome = Inl (OtherError ''File analysis failed: boom'')\<rparr>)) ''j1'' = Some j'
      \<and> status j' = ''failed'' \<and> progress j' = 30
      \<and> error_message j' = Some ''File analysis failed: boom'')"
proof -
  let ?j = "\<lparr>user_id = ''u1'', status = ''pending'', progress = 0, input_file_id = None,
           reference_file_id = None, template_id = None, error_message = None,
           result_file_id = None\<rparr>"
  let ?m = "\<lparr>jobs = Map.empty(''j1'' \<mapsto> ?j), active_tasks = Map.empty\<rparr>"
  let ?b = "\<lparr>reports = [(''processing'', Some 30, None, None)],
       outcome = Inl (OtherError ''File analysis failed: boom'')\<rparr>"
  have "jobs ?m ''j1'' = Some ?j" by simp
  from execute_task_outcome [OF this, of ?b, THEN conjunct2, rule_format,
      of "OtherError ''File analysis failed: boom''"]
  show ?thesis by (auto simp: FAILED_def)
qed

text \<open>
  C4 as stated fails for a body that raises an exception with an empty text, such as
  \<open>raise ValueError()\<close>: the job becomes \<open>failed\<close> at progress 30, and no error
  message is stored.
\<close>

theorem execute_task_empty_message_counterexample:
  "execute_task
      \<lparr>jobs = Map.empty(''j1'' \<mapsto>
          \<lparr>user_id = ''u1'', status = ''pending'', progress = 0, input_file_id = None,
           reference_file_id = None, template_id = None, error_message = None,
           result_file_id = None\<rparr>),
       active_tasks = Map.empty\<rparr> ''j1''
      \<lparr>reports = [(''processing'', Some 30, None, None)], outcome = Inl (ValueError [])\<rparr>
   = (Inl (ValueError []),
      \<lparr>jobs = Map.empty(''j1'' \<mapsto>
          \<lparr>user_id = ''u1'', status = ''failed'', progress = 30, input_file_id = None,
           reference_file_id = None, template_id = None, error_message = None,
           result_file_id = None\<rparr>),
       active_tasks = Map.empty\<rparr>)"
  by (simp add: execute_task_def run_reports_def update_job_status_def Let_def
      PROCESSING_def FAILED_def)

section \<open>Task manager: cancelling a job that is not running\<close>

lemma cancel_job_not_running:
  "active_tasks m jid = None \<or> (\<exists>t. active_tasks m jid = Some t \<and> task_done t)
   \<Longrightarrow> cancel_job m jid = (False, m)"
  by (auto simp: cancel_job_def)

text \<open>
  C3 (as amended). \<open>cancel_job\<close> on a job that was created and never started changes
  nothing: it returns \<open>False\<close>, the "not running" signal, and the job stays
  \<open>pending\<close>, visiting neither \<open>processing\<close> nor \<open>cancelled\<close>. The same holds
  whenever no task of the job is registered or the registered task is done; in
  particular a job whose body has returned stays \<open>completed\<close> and \<open>cancel_job\<close>
  returns \<open>False\<close>.
\<close>

theorem cancel_job_not_running_is_noop:
  "(active_tasks m jid = None \<longrightarrow>
      fst (create_job m (Some jid) uid input_id reference_id tmpl_id) = Inr jid
      \<and> cancel_job (snd (create_job m (Some jid) uid input_id reference_id tmpl_id)) jid
          = (False, snd (create_job m (Some jid) uid input_id reference_id tmpl_id))
      \<and> map_option status
            (jobs (snd (create_job m (Some jid) uid input_id reference_id tmpl_id)) jid)
          = Some PENDING)
   \<and> (active_tasks m jid = None \<or> (\<exists>t. active_tasks m jid = Some t \<and> task_done t) \<longrightarrow>
        cancel_job m jid = (False, m))
   \<and> (jobs m jid \<noteq> None \<and> outcome task_func = Inr result \<longrightarrow>
        (let m3 = task_finished (snd (execute_task (start_background_task m jid) jid task_func)) jid
         in cancel_job m3 jid = (False, m3)
            \<and> map_option status (jobs m3 jid) = Some COMPLETED))"
proof (intro conjI impI)
  assume "active_tasks m jid = None"
  then show "cancel_job (snd (create_job m (Some jid) uid input_id reference_id tmpl_id)) jid
          = (False, snd (create_job m (Some jid) uid input_id reference_id tmpl_id))"
    by (simp add: cancel_job_def create_job_def)
next
  show "fst (create_job m (Some jid) uid input_id reference_id tmpl_id) = Inr jid"
    by (simp add: create_job_def)
next
  show "map_option status
            (jobs (snd (create_job m (Some jid) uid input_id reference_id tmpl_id)) jid)
          = Some PENDING"
    by (simp add: create_job_def)
next
  assume "active_tasks m jid = None \<or> (\<exists>t. active_tasks m jid = Some t \<and> task_done t)"
  then show "cancel_job m jid = (False, m)" by (rule cancel_job_not_running)
next
  assume a: "jobs m jid \<noteq> None \<and> outcome task_func = Inr result"
  then obtain j where j: "jobs (start_background_task m jid) jid = Some j"
    by (auto simp: start_background_task_def)
  from execute_task_returns [OF j, of task_func result] a
  obtain j' where
    "jobs (snd (execute_task (start_background_task m jid) jid task_func)) jid = Some j'"
    "status j' = COMPLETED" by blast
  then show "let m3 = task_finished (snd (execute_task (start_background_task m jid) jid task_func)) jid
         in cancel_job m3 jid = (False, m3)
            \<and> map_option status (jobs m3 jid) = Some COMPLETED"
    by (simp add: Let_def task_finished_def cancel_job_def)
qed

theorem cancel_job_not_running_is_noop_witness:
  "cancel_job (snd (create_job \<lparr>jobs = Map.empty, active_tasks = Map.empty\<rparr>
        (Some ''j1'') ''u1'' None None None)) ''j1''
     = (False, snd (create_job \<lparr>jobs = Map.empty, active_tasks = Map.empty\<rparr>
        (Some ''j1'') ''u1'' None None None))
   \<and> map_option status (jobs (snd (create_job \<lparr>jobs = Map.empty, active_tasks = Map.empty\<rparr>
        (Some ''j1'') ''u1'' None None None)) ''j1'') = Some ''pending''"
  using cancel_job_not_running_is_noop [of "\<lparr>jobs = Map.empty, active_tasks = Map.empty\<rparr>"
      "''j1''" "''u1''" None None None]
  by (simp add: PENDING_def)

text \<open>
  C3 as stated fails on a fresh manager: after \<open>create_job\<close>, \<open>cancel_job\<close> returns
  \<open>False\<close> and the stored status is still \<open>pending\<close>, not \<open>cancelled\<close>.
\<close>

theorem cancel_job_never_started_counterexample:
  "cancel_job (snd (create_job \<lparr>jobs = Map.empty, active_tasks = Map.empty\<rparr>
        (Some ''j1'') ''u1'' None None None)) ''j1''
   = (False,
      \<lparr>jobs = Map.empty(''j1'' \<mapsto>
          \<lparr>user_id = ''u1'', status = ''pending'', progress = 0, input_file_id = None,
           reference_file_id = None, template_id = None, error_message = None,
           result_file_id = None\<rparr>),
       active_tasks = Map.empty\<rparr>)"
  by (simp add: cancel_job_def create_job_def PENDING_def)

section \<open>Batch jobs: the progress written\<close>

lemma truediv_29_50: "py_truediv 29 50 = Inr (Finite False 5224175567749775 (- 53))"
  by (simp add: py_truediv_def round_double_def floor_log2_def round_half_even_def Let_def)

lemma float_of_int_100: "float_of_int 100 = Inr (Finite False 7036874417766400 (- 46))"
  by (simp add: float_of_int_def round_double_def floor_log2_def round_half_even_def Let_def)

lemma float_mul_29_50:
  "float_mul (Finite False 5224175567749775 (- 53)) (Finite False 7036874417766400 (- 46))
     = Finite False 8162774324609023 (- 47)"
  by (simp add: round_double_def floor_log2_def round_half_even_def Let_def)

lemma batch_progress_28_50: "batch_progress 28 50 = Inr 57"
  by (simp add: batch_progress_def truediv_29_50 float_of_int_100 float_mul_29_50 Let_def
      del: float_mul.simps)

text \<open>
  C5. The claim's formula gives \<open>(29 * 100) div 50 = 58\<close> for the 29th of 50 files.
  The code computes \<open>int((29 / 50) * 100)\<close> in floating point: \<open>29 / 50\<close> rounds
  to a float just below 0.58, the product with 100 to the float just below 58, and the
  truncation gives 57, which is the progress written to the job.
\<close>

theorem batch_progress_29th_of_50:
  "batch_progress 28 50 = Inr 57
   \<and> ((28 + 1) * 100) div 50 = (58 :: int)
   \<and> (\<forall>analyze m j operation file_id processed_files failed_files.
        jobs m ''job'' = Some j \<longrightarrow>
        (\<exists>m' ps fs j'.
           batch_loop analyze ''job'' operation 50 28 [file_id] (m, processed_files, failed_files)
             = Inr (m', ps, fs)
           \<and> jobs m' ''job'' = Some j' \<and> progress j' = 57))"
proof (intro conjI allI impI)
  show "batch_progress 28 50 = Inr 57" by (rule batch_progress_28_50)
next
  show "((28 + 1) * 100) div 50 = (58 :: int)" by simp
next
  fix analyze :: "string \<Rightarrow> exn + 'r" and m :: manager and j operation file_id
    and processed_files :: "(string \<times> 'r) list" and failed_files :: "(string \<times> string) list"
  assume "jobs m ''job'' = Some j"
  from update_job_status_jobs [OF this, of PROCESSING "Some 57" None None]
  show "\<exists>m' ps fs j'.
           batch_loop analyze ''job'' operation 50 28 [file_id] (m, processed_files, failed_files)
             = Inr (m', ps, fs)
           \<and> jobs m' ''job'' = Some j' \<and> progress j' = 57"
    by (cases "analyze file_id") (simp_all add: batch_progress_28_50 Let_def)
qed

theorem batch_progress_29th_of_50_witness:
  "\<exists>m' ps fs j'.
     batch_loop (\<lambda>file_id. Inr file_id) ''job'' ''analyze'' 50 28 [''f29'']
       (\<lparr>jobs = Map.empty(''job'' \<mapsto>
            \<lparr>user_id = ''u1'', status = ''processing'', progress = 56, input_file_id = None,
             reference_file_id = None, template_id = None, error_message = None,
             result_file_id = None\<rparr>),
         active_tasks = Map.empty\<rparr>, [], [])
       = Inr (m', ps, fs)
     \<and> jobs m' ''job'' = Some j' \<and> progress j' = 57"
  using batch_progress_29th_of_50 [THEN conjunct2, THEN conjunct2, rule_format,
      of "\<lparr>jobs = Map.empty(''job'' \<mapsto>
            \<lparr>user_id = ''u1'', status = ''processing'', progress = 56, input_file_id = None,
             reference_file_id = None, template_id = None, error_message = None,
             result_file_id = None\<rparr>),
         active_tasks = Map.empty\<rparr>"
      "\<lparr>user_id = ''u1'', status = ''processing'', progress = 56, input_file_id = None,
             reference_file_id = None, template_id = None, error_message = None,
             result_file_id = None\<rparr>"
      "\<lambda>file_id. Inr file_id" "''analyze''" "''f29''" "[]" "[]"]
  by simp

section \<open>Batch jobs: every item is attempted\<close>

text \<open>
  The progress computation never raises inside a batch: the quotient is at most 1, so
  its product with 100 is a finite float.
\<close>

lemma bitlen_mono: "a \<le> b \<Longrightarrow> bitlen a \<le> bitlen b"
proof (induction b arbitrary: a rule: bitlen.induct)
  case (1 n)
  show ?case
  proof (cases "a = 0")
    case True
    then show ?thesis by (subst bitlen.simps) simp
  next
    case False
    with "1.prems" have n: "n \<noteq> 0" by simp
    from "1.prems" have "a div 2 \<le> n div 2" by (rule div_le_mono)
    from "1.IH" [OF n this] have "bitlen (a div 2) \<le> bitlen (n div 2)" .
    with False n show ?thesis
      by (subst bitlen.simps, subst (2) bitlen.simps) simp
  qed
qed

lemma bitlen_double: "0 < n \<Longrightarrow> bitlen (2 * n) = Suc (bitlen n)"
  by (subst bitlen.simps) simp

lemma bitlen_pow_mult: "0 < h \<Longrightarrow> bitlen (2 ^ k * h) = k + bitlen h"
proof (induction k)
  case 0
  then show ?case by simp
next
  case (Suc k)
  then have "bitlen (2 * (2 ^ k * h)) = Suc (bitlen (2 ^ k * h))"
    by (intro bitlen_double) simp
  with Suc show ?case by (simp add: mult.assoc)
qed

lemma bitlen_one: "bitlen (Suc 0) = Suc 0"
  by (subst bitlen.simps) (simp del: bitlen.simps, subst bitlen.simps, simp)

lemma bitlen_pow: "bitlen (2 ^ k) = Suc k"
  using bitlen_pow_mult [of 1 k] bitlen_one by simp

lemma floor_log2_le: "floor_log2 num den \<le> int (bitlen num) - int (bitlen den)"
  by (simp add: floor_log2_def Let_def)

lemma round_half_even_le:
  assumes "0 < d" and "n \<le> K * d"
  shows "round_half_even n d \<le> K"
proof -
  have q: "n div d \<le> K"
    using assms by (metis div_le_mono nonzero_mult_div_cancel_right less_numeral_extra(3))
  show ?thesis
  proof (cases "n div d = K")
    case True
    have "n = (n div d) * d + n mod d" by simp
    with True assms(2) have "n mod d = 0" by (metis add_le_same_cancel1 le_zero_eq)
    with True assms(1) show ?thesis by (simp add: round_half_even_def Let_def)
  next
    case False
    with q have "n div d < K" by simp
    then show ?thesis by (auto simp: round_half_even_def Let_def)
  qed
qed

text \<open>A quotient of at most 1 rounds to a finite float of at most 1.\<close>

lemma round_double_fraction:
  assumes "0 < a" and "a \<le> b"
  shows "\<exists>m k. round_double False a b = Finite False m (- int k) \<and> 52 \<le> k \<and> m \<le> 2 ^ k"
proof -
  define x where "x = max (floor_log2 a b) (- 1022) - 52"
  from bitlen_mono [OF assms(2)] floor_log2_le [of a b] have "floor_log2 a b \<le> 0" by simp
  then have x: "x \<le> - 52" by (simp add: x_def)
  define k where "k = nat (- x)"
  with x have k: "52 \<le> k" and xk: "x = - int k" by simp_all
  from assms have b: "0 < b" by simp
  from assms(2) have "a * 2 ^ k \<le> 2 ^ k * b" by simp
  from round_half_even_le [OF b this]
  have m: "round_half_even (a * 2 ^ k) b \<le> 2 ^ k" .
  from assms(1) x have "round_double False a b = Finite False (round_half_even (a * 2 ^ k) b) x"
    by (simp add: round_double_def Let_def x_def [symmetric] k_def)
  with m k xk show ?thesis by auto
qed

lemma bitlen_hundred: "bitlen 7036874417766400 = 53"
  by simp

lemma float_mul_hundred:
  assumes "52 \<le> k" and "m \<le> 2 ^ k"
  shows "\<exists>m' x'. float_mul (Finite False m (- int k)) (Finite False 7036874417766400 (- 46))
            = Finite False m' x'"
proof (cases "m = 0")
  case True
  then show ?thesis by (simp add: round_double_def)
next
  case False
  let ?num = "m * 7036874417766400" and ?den = "(2::nat) ^ (k + 46)"
  have "?num \<le> 2 ^ k * 7036874417766400" using assms(2) by simp
  from bitlen_mono [OF this] have "bitlen ?num \<le> k + 53"
    by (simp add: bitlen_pow_mult bitlen_hundred del: bitlen.simps)
  moreover have "bitlen ?den = k + 47" by (simp add: bitlen_pow del: bitlen.simps)
  ultimately have "floor_log2 ?num ?den \<le> 6"
    using floor_log2_le [of ?num ?den] by simp
  then have neg: "\<not> 0 \<le> max (floor_log2 ?num ?den) (- 1022) - 52" by simp
  have mul: "float_mul (Finite False m (- int k)) (Finite False 7036874417766400 (- 46))
      = round_double False ?num ?den"
    by (simp add: nat_add_distrib add.commute)
  show ?thesis
    unfolding mul using False neg by (simp add: round_double_def Let_def del: bitlen.simps)
qed

lemma batch_progress_returns:
  assumes "idx < total_files"
  shows "\<exists>p. batch_progress idx total_files = Inr p"
proof -
  from assms have a: "0 < Suc idx" and b: "Suc idx \<le> total_files" by simp_all
  from round_double_fraction [OF a b] obtain m k where
    r: "round_double False (Suc idx) total_files = Finite False m (- int k)"
    and k: "52 \<le> k" and m: "m \<le> 2 ^ k" by blast
  from assms r have d: "py_truediv (int idx + 1) (int total_files) = Inr (Finite False m (- int k))"
    by (simp add: py_truediv_def nat_add_distrib)
  from float_mul_hundred [OF k m] obtain m' x' where
    "float_mul (Finite False m (- int k)) (Finite False 7036874417766400 (- 46))
       = Finite False m' x'" by blast
  then show ?thesis
    by (simp add: batch_progress_def d float_of_int_100 Let_def del: float_mul.simps)
qed

lemma batch_loop_all_items:
  assumes "idx + length file_ids \<le> total_files"
  shows "\<exists>m'. batch_loop analyze job_id operation total_files idx file_ids
              (m, processed_files, failed_files)
     = Inr (m',
            processed_files @
              (if operation = ''analyze''
               then [(file_id, result). file_id \<leftarrow> file_ids, Inr result \<leftarrow> [analyze file_id]]
               else []),
            failed_files @
              (if operation = ''analyze''
               then [(file_id, exn_text e). file_id \<leftarrow> file_ids, Inl e \<leftarrow> [analyze file_id]]
               else map (\<lambda>file_id. (file_id, ''Unknown operation'')) file_ids))"
  using assms
proof (induction file_ids arbitrary: idx m processed_files failed_files)
  case Nil
  then show ?case by simp
next
  case (Cons file_id rest)
  then have "idx < total_files" and rest: "(idx + 1) + length rest \<le> total_files" by simp_all
  from batch_progress_returns [OF this(1)] obtain p where
    p: "batch_progress idx total_files = Inr p" ..
  let ?m = "update_job_status m job_id PROCESSING (Some p) None None"
  show ?case
  proof (cases "operation = ''analyze''")
    case False
    from Cons.IH [OF rest, of ?m processed_files
        "failed_files @ [(file_id, ''Unknown operation'')]"] False p
    show ?thesis by (simp add: Let_def)
  next
    case True
    show ?thesis
    proof (cases "analyze file_id")
      case (Inl e)
      from Cons.IH [OF rest, of ?m processed_files "failed_files @ [(file_id, exn_text e)]"]
        True p Inl
      show ?thesis by (simp add: Let_def)
    next
      case (Inr result)
      from Cons.IH [OF rest, of ?m "processed_files @ [(file_id, result)]" failed_files]
        True p Inr
      show ?thesis by (simp add: Let_def)
    qed
  qed
qed

text \<open>
  Every item of a batch is attempted, whatever happens to the others: the batch returns
  a result that lists each file whose analysis returned, with its result, and each file
  whose analysis raised, with the error's text (or every file as failed, for an unknown
  operation).
\<close>

lemma process_batch_files_all_items:
  "\<exists>m'. process_batch_files analyze m job_id file_ids operation
     = (Inr \<lparr>total = length file_ids,
             processed = length (if operation = ''analyze''
               then [(file_id, result). file_id \<leftarrow> file_ids, Inr result \<leftarrow> [analyze file_id]]
               else []),
             failed = length (if operation = ''analyze''
               then [(file_id, exn_text e). file_id \<leftarrow> file_ids, Inl e \<leftarrow> [analyze file_id]]
               else map (\<lambda>file_id. (file_id, ''Unknown operation'')) file_ids),
             results = (if operation = ''analyze''
               then [(file_id, result). file_id \<leftarrow> file_ids, Inr result \<leftarrow> [analyze file_id]]
               else []),
             errors = (if operation = ''analyze''
               then [(file_id, exn_text e). file_id \<leftarrow> file_ids, Inl e \<leftarrow> [analyze file_id]]
               else map (\<lambda>file_id. (file_id, ''Unknown operation'')) file_ids)\<rparr>, m')"
proof -
  have "0 + length file_ids \<le> length file_ids" by simp
  from batch_loop_all_items [OF this, of analyze job_id operation m "[]" "[]"]
  obtain m' where "batch_loop analyze job_id operation (length file_ids) 0 file_ids (m, [], [])
     = Inr (m',
            [] @ (if operation = ''analyze''
               then [(file_id, result). file_id \<leftarrow> file_ids, Inr result \<leftarrow> [analyze file_id]]
               else []),
            [] @ (if operation = ''analyze''
               then [(file_id, exn_text e). file_id \<leftarrow> file_ids, Inl e \<leftarrow> [analyze file_id]]
               else map (\<lambda>file_id. (file_id, ''Unknown operation'')) file_ids))" ..
  then show ?thesis by (simp add: process_batch_files_def)
qed

section \<open>Type inference on strings\<close>

text \<open>The shape of a string that passes the date check: digits, then a separator.\<close>

lemma split_char_two:
  "split_char c t = p # q # ps \<Longrightarrow> \<exists>t'. t = p @ c # t'"
proof (induction t arbitrary: p)
  case Nil
  then show ?case by simp
next
  case (Cons d t)
  show ?case
  proof (cases "d = c")
    case True
    with Cons.prems show ?thesis by auto
  next
    case False
    with Cons.prems obtain p' where p': "split_char c t = p' # q # ps" and p: "p = d # p'"
      by (auto split: list.splits)
    from Cons.IH [OF p'] p show ?thesis by auto
  qed
qed

lemma is_digit_facts:
  assumes "is_digit c"
  shows "\<not> is_num_space c" and "c \<noteq> CHR ''+''" and "c \<noteq> CHR ''-''" and "c \<noteq> CHR ''_''"
    and "c \<noteq> CHR ''.''" and "c \<noteq> CHR ''e''" and "c \<noteq> CHR ''E''" and "c \<noteq> CHR ''/''"
    and "c \<noteq> CHR ''i''" and "c \<noteq> CHR ''n''" and "c \<noteq> CHR ''t''" and "c \<noteq> CHR ''f''"
    and "c \<noteq> CHR ''y''"
  using assms by (auto simp: is_digit_def is_decimal_def is_num_space_def)

lemma lower_char_digit: "is_digit c \<Longrightarrow> lower_char c = c"
  by (auto simp: is_digit_def is_decimal_def lower_char_def Let_def)

lemma sep_facts:
  assumes "c = CHR ''-'' \<or> c = CHR ''/''"
  shows "\<not> is_num_space c" and "\<not> is_decimal c" and "c \<noteq> CHR ''_''" and "c \<noteq> CHR ''.''"
    and "c \<noteq> CHR ''e''" and "c \<noteq> CHR ''E''"
  using assms by (auto simp: is_decimal_def is_num_space_def)

lemma two_elements: "2 \<le> length xs \<Longrightarrow> \<exists>a b r. xs = a # b # r"
proof (cases xs)
  case Nil
  assume "2 \<le> length xs"
  with Nil show ?thesis by simp
next
  case (Cons a ys)
  assume "2 \<le> length xs"
  with Cons show ?thesis by (cases ys) auto
qed

lemma date_like_shape:
  assumes "date_like s"
  shows "\<exists>ds c0 rest. s = ds @ c0 # rest \<and> ds \<noteq> [] \<and> list_all is_digit ds
           \<and> (c0 = CHR ''-'' \<or> c0 = CHR ''/'')"
proof -
  let ?f = "\<lambda>e. if e = CHR ''-'' then CHR ''/'' else e"
  from assms have len: "2 \<le> length (split_char CHR ''/'' (map ?f s))"
    and digits: "list_all isdigit (split_char CHR ''/'' (map ?f s))"
    by (simp_all add: date_like_def replace_char_def Let_def)
  from two_elements [OF len] obtain p q ps where
    parts: "split_char CHR ''/'' (map ?f s) = p # q # ps" by blast
  with digits have p: "p \<noteq> []" "list_all is_digit p" by (simp_all add: isdigit_def)
  from split_char_two [OF parts] obtain t' where "map ?f s = p @ CHR ''/'' # t'" ..
  then obtain ds tl where s: "s = ds @ tl" and ds: "map ?f ds = p"
    and tl: "map ?f tl = CHR ''/'' # t'"
    by (auto simp: map_eq_append_conv)
  from tl obtain c0 rest where tl': "tl = c0 # rest" and c0: "?f c0 = CHR ''/''"
    by (auto simp: map_eq_Cons_conv)
  have "list_all is_digit ds"
    unfolding list_all_iff
  proof
    fix e assume e: "e \<in> set ds"
    with ds p(2) have "is_digit (?f e)" by (auto simp: list_all_iff)
    then show "is_digit e"
      using is_digit_facts(8) [of "CHR ''/''"] by (auto split: if_splits)
  qed
  moreover from ds p(1) have "ds \<noteq> []" by auto
  moreover from c0 have "c0 = CHR ''-'' \<or> c0 = CHR ''/''" by (auto split: if_splits)
  ultimately show ?thesis using s tl' by blast
qed

lemma num_strip_shape:
  assumes "ds \<noteq> []" and "\<not> is_num_space (hd ds)" and "\<not> is_num_space c0"
  shows "\<exists>rest'. num_strip (ds @ c0 # rest) = ds @ c0 # rest'"
proof -
  from assms(1,2) have front: "dropWhile is_num_space (ds @ c0 # rest) = ds @ c0 # rest"
    by (cases ds) auto
  have "dropWhile is_num_space (rev (ds @ c0 # rest))
      = dropWhile is_num_space (rev rest) @ c0 # rev ds"
    using assms(3) by (simp add: dropWhile_append3)
  with front show ?thesis by (simp add: num_strip_def)
qed

lemma dropWhile_stops:
  "\<not> P c \<Longrightarrow> \<exists>x xs. dropWhile P (ds @ c # r) = x # xs \<and> \<not> P x \<and> (x \<in> set ds \<or> x = c)"
  by (induction ds) auto

lemma int_of_str_date_like:
  assumes "date_like s"
  shows "int_of_str s = Inl (ValueError [])"
proof -
  from date_like_shape [OF assms] obtain ds c0 rest where
    s: "s = ds @ c0 # rest" and ds: "ds \<noteq> []" "list_all is_digit ds"
    and c0: "c0 = CHR ''-'' \<or> c0 = CHR ''/''" by blast
  from ds have hd: "is_digit (hd ds)" by (cases ds) auto
  from num_strip_shape [OF ds(1) is_digit_facts(1) [OF hd] sep_facts(1) [OF c0]] s
  obtain rest' where t: "num_strip s = ds @ c0 # rest'" by blast
  from ds(1) is_digit_facts(2,3) [OF hd]
  have sign: "split_sign (ds @ c0 # rest') = (False, ds @ c0 # rest')"
    by (cases ds) (auto simp: split_sign_def)
  from t sign sep_facts(2,3) [OF c0] show ?thesis
    by (simp add: int_of_str_def Let_def)
qed

lemma float_body_date_like:
  assumes ds: "ds \<noteq> []" "list_all is_digit ds" and c0: "c0 = CHR ''-'' \<or> c0 = CHR ''/''"
  shows "float_body neg (ds @ c0 # r) = Inl (ValueError [])"
proof -
  obtain d ds' where d: "ds = d # ds'" using ds(1) by (cases ds) auto
  with ds(2) have dd: "is_digit d" by simp
  have lw: "lower (ds @ c0 # r) = d # lower (ds' @ c0 # r)"
    by (simp add: d lower_def lower_char_digit [OF dd])
  have special: "lower (ds @ c0 # r) \<noteq> ''inf''" "lower (ds @ c0 # r) \<noteq> ''infinity''"
    "lower (ds @ c0 # r) \<noteq> ''nan''"
    using is_digit_facts(9,10) [OF dd] by (simp_all add: lw)
  from dropWhile_stops [of is_decimal c0 ds r] sep_facts(2) [OF c0]
  obtain x xs where r1: "dropWhile is_decimal (ds @ c0 # r) = x # xs"
    and x: "x \<in> set ds \<or> x = c0" by blast
  from x have nx: "x \<noteq> CHR ''.''" "x \<noteq> CHR ''e''" "x \<noteq> CHR ''E''"
    using ds(2) is_digit_facts(5,6,7) [of x] sep_facts(4,5,6) [OF c0]
    by (auto simp: list_all_iff)
  from nx have ex: "exponent_of (x # xs) = None" by (simp add: exponent_of_def)
  show ?thesis
    unfolding float_body_def using special by (simp add: r1 nx ex Let_def)
qed

lemma float_of_str_date_like:
  assumes "date_like s"
  shows "float_of_str s = Inl (ValueError [])"
proof -
  from date_like_shape [OF assms] obtain ds c0 rest where
    s: "s = ds @ c0 # rest" and ds: "ds \<noteq> []" "list_all is_digit ds"
    and c0: "c0 = CHR ''-'' \<or> c0 = CHR ''/''" by blast
  from ds have hd: "is_digit (hd ds)" by (cases ds) auto
  from num_strip_shape [OF ds(1) is_digit_facts(1) [OF hd] sep_facts(1) [OF c0]] s
  obtain rest' where t: "num_strip s = ds @ c0 # rest'" by blast
  have keep: "remove_char CHR ''_'' (ds @ c0 # rest') = ds @ c0 # remove_char CHR ''_'' rest'"
    using ds(2) is_digit_facts(4) sep_facts(3) [OF c0]
    by (auto simp: remove_char_def list_all_iff filter_id_conv)
  from ds(1) is_digit_facts(2,3) [OF hd]
  have sign: "split_sign (ds @ c0 # remove_char CHR ''_'' rest')
      = (False, ds @ c0 # remove_char CHR ''_'' rest')"
    by (cases ds) (auto simp: split_sign_def)
  show ?thesis
    unfolding float_of_str_def
    by (simp add: t keep sign float_body_date_like [OF ds c0] Let_def)
qed

lemma lower_date_like:
  assumes "date_like s"
  shows "lower s \<notin> set [''true'', ''false'', ''yes'', ''no'']"
proof -
  from date_like_shape [OF assms] obtain ds c0 rest where
    s: "s = ds @ c0 # rest" and ds: "ds \<noteq> []" "list_all is_digit ds" by blast
  then obtain d ds' where d: "ds = d # ds'" and dd: "is_digit d" by (cases ds) auto
  have "lower s = d # lower (ds' @ c0 # rest)"
    by (simp add: s d lower_def lower_char_digit [OF dd])
  with is_digit_facts(10,11,12,13) [OF dd] show ?thesis by simp
qed

lemma str_errors:
  "int_of_str s = Inl e \<Longrightarrow> e = ValueError []"
  "float_of_str s = Inl e \<Longrightarrow> e = ValueError []"
  by (auto simp: int_of_str_def float_of_str_def float_body_def Let_def
      split: prod.splits if_splits option.splits)

lemma infer_data_type_str:
  "s \<noteq> [] \<Longrightarrow>
   infer_data_type py (PStr s) =
     Inr (case int_of_str s of
            Inr i \<Rightarrow> ''integer''
          | Inl e \<Rightarrow>
              (case float_of_str s of
                 Inr f \<Rightarrow> ''float''
               | Inl e' \<Rightarrow>
                   if lower s \<in> set [''true'', ''false'', ''yes'', ''no''] then ''boolean''
                   else if date_like s then ''date'' else ''string''))"
  by (auto simp: infer_data_type_def infer_tail_def is_bool_def
      split: sum.splits dest!: str_errors)

text \<open>The examples, evaluated.\<close>

lemmas str_eval = split_sign_def num_strip_def is_num_space_def is_decimal_def remove_char_def
  lower_def lower_char_def Let_def char_of_eq_iff

lemma int_of_str_42: "int_of_str ''42'' = Inr 42"
  by (simp add: int_of_str_def decimal_value_def str_eval)

lemma int_of_str_42_5: "int_of_str ''42.5'' = Inl (ValueError [])"
  by (simp add: int_of_str_def str_eval)

lemma float_body_42_5: "float_body False ''42.5'' = Inr (decimal_to_double False 425 (- 1))"
  by (simp add: float_body_def exponent_of_def decimal_value_def str_eval)

lemma float_of_str_42_5: "float_of_str ''42.5'' = Inr (Finite False 5981343255101440 (- 47))"
proof -
  have "float_of_str ''42.5'' = float_body False ''42.5''"
    by (simp add: float_of_str_def str_eval)
  also have "\<dots> = Inr (round_double False 425 10)"
    by (simp add: float_body_42_5 decimal_to_double_def)
  also have "round_double False 425 10 = Finite False 5981343255101440 (- 47)"
    by (simp add: round_double_def floor_log2_def round_half_even_def Let_def)
  finally show ?thesis .
qed

lemma int_of_str_true: "int_of_str ''true'' = Inl (ValueError [])"
  by (simp add: int_of_str_def str_eval)

lemma float_of_str_true: "float_of_str ''true'' = Inl (ValueError [])"
  by (simp add: float_of_str_def float_body_def str_eval)

lemma int_of_str_hello: "int_of_str ''hello'' = Inl (ValueError [])"
  by (simp add: int_of_str_def str_eval)

lemma float_of_str_hello: "float_of_str ''hello'' = Inl (ValueError [])"
  by (simp add: float_of_str_def float_body_def str_eval)

lemma date_like_2024: "date_like ''2024-01-05''"
  by (simp add: date_like_def replace_char_def isdigit_def is_digit_def is_decimal_def)

lemma not_date_like_hello: "\<not> date_like ''hello''"
  by (simp add: date_like_def)

lemma date_like_slashes: "date_like ''12/31/1999''"
  by (simp add: date_like_def replace_char_def isdigit_def is_digit_def is_decimal_def)

lemma lower_true: "lower ''true'' = ''true''" and lower_hello: "lower ''hello'' = ''hello''"
  by (simp_all add: lower_def lower_char_def)

text \<open>
  An integer literal is an optional sign followed by decimal digits. \<open>int\<close> accepts it
  when it has at most 4300 digits and rejects it beyond this conversion limit;
  \<open>float\<close> accepts it whatever its length.
\<close>

lemma is_decimal_facts:
  assumes "is_decimal c"
  shows "\<not> is_num_space c" and "c \<noteq> CHR ''+''" and "c \<noteq> CHR ''-''" and "c \<noteq> CHR ''_''"
  using assms by (auto simp: is_decimal_def is_num_space_def)

lemma underscores_ok_decimal:
  "list_all is_decimal ds \<Longrightarrow> prev \<noteq> CHR ''_'' \<Longrightarrow> underscores_ok prev ds"
proof (induction ds arbitrary: prev)
  case Nil
  then show ?case by simp
next
  case (Cons d ds)
  then have "d \<noteq> CHR ''_''" using is_decimal_facts(4) [of d] by simp
  with Cons show ?case by simp
qed

lemma integer_literal_parts:
  assumes sg: "sg \<in> set [[], ''+'', ''-'']" and ne: "ds \<noteq> []"
    and dec: "list_all is_decimal ds"
  shows "num_strip (sg @ ds) = sg @ ds"
    and "split_sign (sg @ ds) = (sg = ''-'', ds)"
    and "remove_char CHR ''_'' (sg @ ds) = sg @ ds"
    and "remove_char CHR ''_'' ds = ds"
    and "underscores_ok (CHR 0x00) (sg @ ds)"
proof -
  define s where "s = sg @ ds"
  from sg have s: "s = ds \<or> s = CHR ''+'' # ds \<or> s = CHR ''-'' # ds"
    by (auto simp: s_def)
  from ne obtain d ds' where d: "ds = d # ds'" by (cases ds) auto
  with dec have dd: "is_decimal d" by simp
  from s ne have last: "last s = last ds" and sne: "s \<noteq> []" by auto
  from dec ne have "\<not> is_num_space (last ds)"
    using is_decimal_facts(1) [of "last ds"] by (auto simp: list_all_iff)
  with last have "\<not> is_num_space (last s)" by simp
  then have rear: "dropWhile is_num_space (rev s) = rev s"
    using sne by (cases "rev s") (auto simp: last_rev [symmetric] hd_rev)
  from s d is_decimal_facts(1) [OF dd] have front: "dropWhile is_num_space s = s"
    by (auto simp: is_num_space_def)
  from front rear show "num_strip (sg @ ds) = sg @ ds"
    by (simp add: num_strip_def s_def)
  from sg d is_decimal_facts(2,3) [OF dd] show "split_sign (sg @ ds) = (sg = ''-'', ds)"
    by (auto simp: split_sign_def)
  from dec is_decimal_facts(4) show ds_id: "remove_char CHR ''_'' ds = ds"
    by (auto simp: remove_char_def list_all_iff filter_id_conv)
  with sg show "remove_char CHR ''_'' (sg @ ds) = sg @ ds"
    by (auto simp: remove_char_def)
  have u: "underscores_ok (CHR 0x00) ds" "underscores_ok (CHR ''+'') ds"
    "underscores_ok (CHR ''-'') ds"
    by (rule underscores_ok_decimal [OF dec], simp)+
  from s have "underscores_ok (CHR 0x00) s"
  proof (elim disjE)
    assume "s = ds"
    with u(1) show ?thesis by simp
  next
    assume "s = CHR ''+'' # ds"
    with u(2) show ?thesis by simp
  next
    assume "s = CHR ''-'' # ds"
    with u(3) show ?thesis by simp
  qed
  then show "underscores_ok (CHR 0x00) (sg @ ds)" by (simp add: s_def)
qed

lemma int_of_str_integer_literal:
  assumes "sg \<in> set [[], ''+'', ''-'']" and "ds \<noteq> []" and "list_all is_decimal ds"
    and "length ds \<le> 4300"
  shows "int_of_str (sg @ ds)
           = Inr (if sg = ''-'' then - int (decimal_value ds) else int (decimal_value ds))"
proof -
  from assms(3) have "list_all (\<lambda>c. is_decimal c \<or> c = CHR ''_'') ds"
    by (simp add: list_all_iff)
  moreover from assms(3) have "underscores_ok (CHR 0x00) ds"
    by (rule underscores_ok_decimal) simp
  ultimately show ?thesis
    using integer_literal_parts(1,2,4) [OF assms(1,2,3)] assms(2,4)
    by (simp add: int_of_str_def)
qed

lemma int_of_str_digit_limit:
  assumes "sg \<in> set [[], ''+'', ''-'']" and "list_all is_decimal ds" and "4300 < length ds"
  shows "int_of_str (sg @ ds) = Inl (ValueError [])"
proof -
  from assms(3) have "ds \<noteq> []" by auto
  from integer_literal_parts(1,2,4) [OF assms(1) this assms(2)] assms(3) show ?thesis
    by (simp add: int_of_str_def)
qed

lemma float_body_decimal:
  assumes "list_all is_decimal ds" and "ds \<noteq> []"
  shows "float_body neg ds = Inr (decimal_to_double neg (decimal_value ds) 0)"
proof -
  from assms(2) obtain d ds' where d: "ds = d # ds'" by (cases ds) auto
  with assms(1) have dd: "is_digit d" by (simp add: is_digit_def)
  have lw: "lower ds = d # lower ds'"
    by (simp add: d lower_def lower_char_digit [OF dd])
  have special: "lower ds \<noteq> ''inf''" "lower ds \<noteq> ''infinity''" "lower ds \<noteq> ''nan''"
    using is_digit_facts(9,10) [OF dd] by (simp_all add: lw)
  from assms(1) have tw: "takeWhile is_decimal ds = ds" "dropWhile is_decimal ds = []"
    by (simp_all add: list_all_iff)
  show ?thesis
    unfolding float_body_def using special assms(2)
    by (simp add: tw exponent_of_def Let_def)
qed

lemma float_of_str_integer_literal:
  assumes "sg \<in> set [[], ''+'', ''-'']" and "ds \<noteq> []" and "list_all is_decimal ds"
  shows "float_of_str (sg @ ds)
           = Inr (decimal_to_double (sg = ''-'') (decimal_value ds) 0)"
  using integer_literal_parts [OF assms] assms(2,3)
  by (simp add: float_of_str_def float_body_decimal)

lemma infer_data_type_long_digits:
  assumes "sg \<in> set [[], ''+'', ''-'']" and "list_all is_decimal ds" and "4300 < length ds"
  shows "infer_data_type py (PStr (sg @ ds)) = Inr ''float''"
proof -
  from assms(3) have ne: "ds \<noteq> []" by auto
  then have "sg @ ds \<noteq> []" by simp
  then show ?thesis
    unfolding infer_data_type_str [OF \<open>sg @ ds \<noteq> []\<close>]
      int_of_str_digit_limit [OF assms] float_of_str_integer_literal [OF assms(1) ne assms(2)]
    by simp
qed

lemma decimal_nines: "list_all is_decimal (replicate n CHR ''9'')"
  by (simp add: list_all_iff is_decimal_def)

lemma decimal_value_17: "decimal_value ''17'' = 17"
  by (simp add: decimal_value_def)

text \<open>
  \<open>infer_data_type\<close> does raise on a value that is no string: \<open>int\<close> of an
  infinite float raises \<open>OverflowError\<close>, which the handler lets through.
\<close>

lemma infer_data_type_infinity:
  "infer_data_type py (PFloat (Infinity neg))
     = Inl (OverflowError ''cannot convert float infinity to integer'')"
  by (simp add: infer_data_type_def)

text \<open>
  C2 (as amended). On every string \<open>infer_data_type\<close> returns a type and never raises.
  It gives \<open>null\<close> for the empty string, \<open>integer\<close> for \<open>42\<close>, \<open>float\<close> for
  \<open>42.5\<close>, \<open>boolean\<close> for \<open>true\<close>, \<open>date\<close> for \<open>2024-01-05\<close> and \<open>string\<close>
  for \<open>hello\<close>. On a non-empty string the checks are tried in the order integer,
  float, boolean, date, string. An integer literal (an optional sign, then decimal
  digits) of at most 4300 digits is converted by \<open>int\<close> to its value and is an
  integer, never a float; one of more than 4300 digits is rejected by \<open>int\<close> and is
  a float. A string that passes the date check is rejected by \<open>int\<close> and by
  \<open>float\<close> and is a date.
\<close>

theorem infer_data_type_strings:
  "(\<exists>t. infer_data_type py (PStr s) = Inr t)
   \<and> infer_data_type py (PStr []) = Inr ''null''
   \<and> infer_data_type py (PStr ''42'') = Inr ''integer''
   \<and> infer_data_type py (PStr ''42.5'') = Inr ''float''
   \<and> infer_data_type py (PStr ''true'') = Inr ''boolean''
   \<and> infer_data_type py (PStr ''2024-01-05'') = Inr ''date''
   \<and> infer_data_type py (PStr ''hello'') = Inr ''string''
   \<and> (s \<noteq> [] \<longrightarrow>
        infer_data_type py (PStr s) =
          Inr (case int_of_str s of
                 Inr i \<Rightarrow> ''integer''
               | Inl e \<Rightarrow>
                   (case float_of_str s of
                      Inr f \<Rightarrow> ''float''
                    | Inl e' \<Rightarrow>
                        if lower s \<in> set [''true'', ''false'', ''yes'', ''no''] then ''boolean''
                        else if date_like s then ''date'' else ''string'')))
   \<and> (sg \<in> set [[], ''+'', ''-''] \<and> ds \<noteq> [] \<and> list_all is_decimal ds
        \<and> length ds \<le> 4300 \<longrightarrow>
        infer_data_type py (PStr (sg @ ds)) = Inr ''integer''
        \<and> int_of_str (sg @ ds)
            = Inr (if sg = ''-'' then - int (decimal_value ds) else int (decimal_value ds)))
   \<and> (sg \<in> set [[], ''+'', ''-''] \<and> list_all is_decimal ds \<and> 4300 < length ds \<longrightarrow>
        infer_data_type py (PStr (sg @ ds)) = Inr ''float''
        \<and> int_of_str (sg @ ds) = Inl (ValueError []))
   \<and> (date_like s \<longrightarrow>
        infer_data_type py (PStr s) = Inr ''date''
        \<and> int_of_str s = Inl (ValueError []) \<and> float_of_str s = Inl (ValueError []))"
proof (intro conjI impI)
  show "\<exists>t. infer_data_type py (PStr s) = Inr t"
  proof (cases "s = []")
    case True
    then show ?thesis by (simp add: infer_data_type_def)
  next
    case False
    from infer_data_type_str [OF this] show ?thesis by blast
  qed
next
  show "infer_data_type py (PStr []) = Inr ''null''"
    by (simp add: infer_data_type_def)
next
  show "infer_data_type py (PStr ''42'') = Inr ''integer''"
    by (simp add: infer_data_type_str int_of_str_42)
next
  show "infer_data_type py (PStr ''42.5'') = Inr ''float''"
    by (simp add: infer_data_type_str int_of_str_42_5 float_of_str_42_5)
next
  show "infer_data_type py (PStr ''true'') = Inr ''boolean''"
    by (simp add: infer_data_type_str int_of_str_true float_of_str_true lower_true)
next
  show "infer_data_type py (PStr ''2024-01-05'') = Inr ''date''"
    by (simp add: infer_data_type_str int_of_str_date_like float_of_str_date_like
        lower_date_like [simplified] date_like_2024)
next
  show "infer_data_type py (PStr ''hello'') = Inr ''string''"
    by (simp add: infer_data_type_str int_of_str_hello float_of_str_hello lower_hello
        not_date_like_hello)
next
  assume "s \<noteq> []"
  then show "infer_data_type py (PStr s) =
          Inr (case int_of_str s of
                 Inr i \<Rightarrow> ''integer''
               | Inl e \<Rightarrow>
                   (case float_of_str s of
                      Inr f \<Rightarrow> ''float''
                    | Inl e' \<Rightarrow>
                        if lower s \<in> set [''true'', ''false'', ''yes'', ''no''] then ''boolean''
                        else if date_like s then ''date'' else ''string''))"
    by (rule infer_data_type_str)
next
  assume a: "sg \<in> set [[], ''+'', ''-''] \<and> ds \<noteq> [] \<and> list_all is_decimal ds
    \<and> length ds \<le> 4300"
  then have sg: "sg \<in> set [[], ''+'', ''-'']" and ne: "ds \<noteq> []"
    and dec: "list_all is_decimal ds" and len: "length ds \<le> 4300"
    by blast+
  from ne have "sg @ ds \<noteq> []" by simp
  then show "infer_data_type py (PStr (sg @ ds)) = Inr ''integer''"
    unfolding infer_data_type_str [OF \<open>sg @ ds \<noteq> []\<close>]
      int_of_str_integer_literal [OF sg ne dec len]
    by simp
next
  assume a: "sg \<in> set [[], ''+'', ''-''] \<and> ds \<noteq> [] \<and> list_all is_decimal ds
    \<and> length ds \<le> 4300"
  then have sg: "sg \<in> set [[], ''+'', ''-'']" and ne: "ds \<noteq> []"
    and dec: "list_all is_decimal ds" and len: "length ds \<le> 4300"
    by blast+
  then show "int_of_str (sg @ ds)
      = Inr (if sg = ''-'' then - int (decimal_value ds) else int (decimal_value ds))"
    by (rule int_of_str_integer_literal)
next
  assume a: "sg \<in> set [[], ''+'', ''-''] \<and> list_all is_decimal ds \<and> 4300 < length ds"
  then have "sg \<in> set [[], ''+'', ''-'']" and "list_all is_decimal ds"
    and "4300 < length ds"
    by blast+
  then show "infer_data_type py (PStr (sg @ ds)) = Inr ''float''"
    by (rule infer_data_type_long_digits)
next
  assume a: "sg \<in> set [[], ''+'', ''-''] \<and> list_all is_decimal ds \<and> 4300 < length ds"
  then have "sg \<in> set [[], ''+'', ''-'']" and "list_all is_decimal ds"
    and "4300 < length ds"
    by blast+
  then show "int_of_str (sg @ ds) = Inl (ValueError [])"
    by (rule int_of_str_digit_limit)
next
  assume d: "date_like s"
  then have "s \<noteq> []" by (auto simp: date_like_def)
  with d lower_date_like [OF d] show "infer_data_type py (PStr s) = Inr ''date''"
    by (simp add: infer_data_type_str int_of_str_date_like float_of_str_date_like)
next
  assume "date_like s"
  then show "int_of_str s = Inl (ValueError [])" by (rule int_of_str_date_like)
next
  assume "date_like s"
  then show "float_of_str s = Inl (ValueError [])" by (rule float_of_str_date_like)
qed

theorem infer_data_type_strings_witness:
  "infer_data_type plain_builtins (PStr ''12/31/1999'') = Inr ''date''
   \<and> int_of_str ''12/31/1999'' = Inl (ValueError [])
   \<and> float_of_str ''12/31/1999'' = Inl (ValueError [])
   \<and> infer_data_type plain_builtins (PStr ''-17'') = Inr ''integer''
   \<and> int_of_str ''-17'' = Inr (- 17)"
proof -
  have lit: "''-'' \<in> set [[], ''+'', ''-''] \<and> ''17'' \<noteq> [] \<and> list_all is_decimal ''17''
    \<and> length ''17'' \<le> 4300"
    by (simp add: is_decimal_def)
  note inst = infer_data_type_strings [of plain_builtins "''12/31/1999''" "''-''" "''17''"]
  from inst lit have
    "infer_data_type plain_builtins (PStr (''-'' @ ''17'')) = Inr ''integer''
     \<and> int_of_str (''-'' @ ''17'')
         = Inr (if ''-'' = ''-'' then - int (decimal_value ''17'')
                else int (decimal_value ''17''))"
    by blast
  then have literal:
    "infer_data_type plain_builtins (PStr ''-17'') = Inr ''integer''
     \<and> int_of_str ''-17'' = Inr (- 17)"
    by (simp add: decimal_value_17)
  from inst date_like_slashes have
    "infer_data_type plain_builtins (PStr ''12/31/1999'') = Inr ''date''
     \<and> int_of_str ''12/31/1999'' = Inl (ValueError [])
     \<and> float_of_str ''12/31/1999'' = Inl (ValueError [])"
    by blast
  with literal show ?thesis by blast
qed

text \<open>
  The claim as first stated says that integers are never classified as floats. An
  integer of 4301 digits is: \<open>int\<close> rejects the string of 4301 nines, \<open>float\<close>
  accepts it, and \<open>infer_data_type\<close> answers \<open>float\<close>.
\<close>

theorem infer_data_type_long_integer_counterexample:
  "list_all is_decimal (replicate 4301 CHR ''9'')
   \<and> int_of_str (replicate 4301 CHR ''9'') = Inl (ValueError [])
   \<and> infer_data_type plain_builtins (PStr (replicate 4301 CHR ''9'')) = Inr ''float''"
proof (intro conjI)
  have sg: "[] \<in> set [[], ''+'', ''-'']" by simp
  have len: "4300 < length (replicate 4301 CHR ''9'')"
    unfolding length_replicate by simp
  show "list_all is_decimal (replicate 4301 CHR ''9'')" by (rule decimal_nines)
  from int_of_str_digit_limit [OF sg decimal_nines len]
  show "int_of_str (replicate 4301 CHR ''9'') = Inl (ValueError [])"
    unfolding append_Nil .
  from infer_data_type_long_digits [OF sg decimal_nines len]
  show "infer_data_type plain_builtins (PStr (replicate 4301 CHR ''9'')) = Inr ''float''"
    unfolding append_Nil .
qed

end
